theory Spec2Isabelle
  imports Main
begin

section \<open>JavaScript values\<close>

text \<open>
  The hook receives \<^verbatim>\<open>event.data\<close> as \<^verbatim>\<open>Record<string, unknown>\<close> and reads its
  fields through \<^verbatim>\<open>as\<close> casts. A TypeScript cast is erased at run time, so a field
  holds whatever JSON value the bot sent. \<open>jsval\<close> is that value: a missing field
  reads as \<open>JUndefined\<close>. \<open>JNum\<close> stands for the integer-valued numbers below
  \<open>10^21\<close> in magnitude, which JavaScript prints as plain decimal digits; JSON arrays
  and fractional numbers are left out.
\<close>

datatype jsval =
    JUndefined
  | JNull
  | JBool bool
  | JNum int
  | JStr string
  | JObj "(string \<times> jsval) list"

text \<open>Property access \<^verbatim>\<open>data.k\<close> on a value that is neither null nor undefined.\<close>

fun field :: "jsval \<Rightarrow> string \<Rightarrow> jsval" where
  "field (JObj kvs) k = (case map_of kvs k of Some v \<Rightarrow> v | None \<Rightarrow> JUndefined)"
| "field v k = JUndefined"

text \<open>The test \<^verbatim>\<open>v != null\<close> (loose inequality: false for null and undefined only).\<close>

fun not_nullish :: "jsval \<Rightarrow> bool" where
  "not_nullish JUndefined = False"
| "not_nullish JNull = False"
| "not_nullish v = True"

text \<open>The operator \<^verbatim>\<open>v ?? d\<close>.\<close>

definition nullish_or :: "jsval \<Rightarrow> jsval \<Rightarrow> jsval" where
  "nullish_or v d = (if not_nullish v then v else d)"

subsection \<open>Number to string\<close>

definition digit_char :: "nat \<Rightarrow> char" where
  "digit_char d = ''0123456789'' ! d"

fun digits :: "nat \<Rightarrow> string" where
  "digits n = (if n < 10 then [digit_char n] else digits (n div 10) @ [digit_char (n mod 10)])"

declare digits.simps [simp del]

definition show_int :: "int \<Rightarrow> string" where
  "show_int i = (if i < 0 then CHR ''-'' # digits (nat (- i)) else digits (nat i))"

text \<open>
  The string a template literal \<^verbatim>\<open>`${v}`\<close> inserts for \<open>v\<close>, or the TypeError it
  throws. An object parsed from JSON has no callable property of its own. Without an
  own key \<^verbatim>\<open>toString\<close> the inherited method answers \<^verbatim>\<open>[object Object]\<close>. With one,
  the conversion finds nothing to call there, \<^verbatim>\<open>valueOf\<close> (its own, not callable, or
  the inherited one, which gives the object back) yields no primitive, and the
  conversion throws.
\<close>

datatype js_error = TypeError

fun toString :: "jsval \<Rightarrow> js_error + string" where
  "toString JUndefined = Inr ''undefined''"
| "toString JNull = Inr ''null''"
| "toString (JBool b) = Inr (if b then ''true'' else ''false'')"
| "toString (JNum n) = Inr (show_int n)"
| "toString (JStr s) = Inr s"
| "toString (JObj kvs) =
     (if map_of kvs ''toString'' = None then Inr ''[object Object]'' else Inl TypeError)"

text \<open>
  \<^verbatim>\<open>++counter\<close> on a JavaScript number. The counters start at 0 and only ever grow by
  this operation, so they are integers in \<open>0..2^53\<close>; at \<open>2^53\<close> the double
  \<open>2^53 + 1\<close> rounds back to \<open>2^53\<close> and the increment no longer changes the value.
\<close>

definition js_incr :: "nat \<Rightarrow> nat" where
  "js_incr n = (if n < 2 ^ 53 then n + 1 else n)"

text \<open>\<^verbatim>\<open>xs.slice(start)\<close>: a negative start counts from the end.\<close>

definition slice :: "int \<Rightarrow> 'a list \<Rightarrow> 'a list" where
  "slice start xs =
     (let n = int (length xs);
          k = (if start < 0 then max (n + start) 0 else min start n)
      in drop (nat k) xs)"

text \<open>\<^verbatim>\<open>xs.findIndex(p)\<close>: the first index whose element satisfies \<open>p\<close>, or -1.\<close>

fun findIndex :: "('a \<Rightarrow> bool) \<Rightarrow> 'a list \<Rightarrow> int" where
  "findIndex p [] = -1"
| "findIndex p (x # xs) =
     (if p x then 0 else (let i = findIndex p xs in if i < 0 then -1 else i + 1))"

section \<open>Data model (useWebRTC.ts)\<close>

datatype ConnectionStatus = Disconnected | Connecting | Connected

text \<open>
  \<^verbatim>\<open>PipelineStatus\<close> is a union of five string literals; the state cell holds the
  value of \<^verbatim>\<open>data.status\<close> unchecked, so it is a \<open>jsval\<close> here.
\<close>

definition PipelineStatus :: "jsval set" where
  "PipelineStatus = {JStr ''idle'', JStr ''listening'', JStr ''stt'', JStr ''llm'', JStr ''tts''}"

record TranscriptMessage =
  tm_id :: string
  tm_role :: jsval
  tm_text :: jsval
  tm_timestamp :: jsval
  tm_final :: jsval

record LogMessage =
  lm_text :: jsval
  lm_timestamp :: int

text \<open>
  The Daily call object, as far as the hook uses it: the local-audio flag that
  \<^verbatim>\<open>localAudio()\<close> reads and \<^verbatim>\<open>setLocalAudio\<close> writes. The operations the hook
  invokes on the transport are recorded in order.
\<close>

record DailyCall =
  localAudio :: bool

datatype transport_op = Create | Join | Leave | Destroy | SetLocalAudio bool

text \<open>How an awaited promise ends: it resolves, it rejects, or it never settles.\<close>

datatype outcome = Resolves | Rejects | Pending

datatype fetch_result = FetchOk | FetchNotOk | FetchRejects | FetchPending

text \<open>
  The whole client state: the two module-level counters of useWebRTC.ts, the state
  and ref cells of the \<^verbatim>\<open>useWebRTC\<close> hook, the state cells of \<^verbatim>\<open>App\<close>, and the trace
  of transport operations.
\<close>

record world =
  globalUserMessageId :: nat
  globalAssistantMessageId :: nat
  connectionStatus :: ConnectionStatus
  pipelineStatus :: jsval
  isMuted :: bool
  callObjectRef :: "DailyCall option"
  sessionId :: "string option"
  messages :: "TranscriptMessage list"
  logs :: "LogMessage list"
  currentText :: string
  transportOps :: "transport_op list"

definition init_world :: world where
  "init_world =
     \<lparr> globalUserMessageId = 0, globalAssistantMessageId = 0,
       connectionStatus = Disconnected, pipelineStatus = JStr ''idle'', isMuted = False,
       callObjectRef = None, sessionId = None, messages = [], logs = [],
       currentText = [], transportOps = [] \<rparr>"

definition isConnected :: "world \<Rightarrow> bool" where
  "isConnected w = (connectionStatus w = Connected)"

section \<open>Callbacks of App.tsx\<close>

definition handleStatusChange :: "jsval \<Rightarrow> world \<Rightarrow> world" where
  "handleStatusChange status w =
     (if status \<noteq> JStr ''stt'' \<and> status \<noteq> JStr ''listening''
      then w\<lparr>currentText := []\<rparr> else w)"

text \<open>The updater passed to \<^verbatim>\<open>setMessages\<close>.\<close>

definition upsert :: "TranscriptMessage \<Rightarrow> TranscriptMessage list \<Rightarrow> TranscriptMessage list" where
  "upsert message prev =
     (let existingIndex = findIndex (\<lambda>m. tm_id m = tm_id message) prev
      in if existingIndex \<ge> 0 then prev[nat existingIndex := message]
         else prev @ [message])"

definition handleTranscript :: "TranscriptMessage \<Rightarrow> world \<Rightarrow> world" where
  "handleTranscript message w = w\<lparr>messages := upsert message (messages w)\<rparr>"

text \<open>The updater passed to \<^verbatim>\<open>setLogs\<close>.\<close>

definition append_log :: "LogMessage \<Rightarrow> LogMessage list \<Rightarrow> LogMessage list" where
  "append_log log prev = slice (-19) prev @ [log]"

definition handleLog :: "LogMessage \<Rightarrow> world \<Rightarrow> world" where
  "handleLog log w = w\<lparr>logs := append_log log (logs w)\<rparr>"

section \<open>The hook (useWebRTC.ts)\<close>

text \<open>
  The template literal \<^verbatim>\<open>`${role}-${messageId}`\<close>: it converts the role, then the
  message id, and throws if either conversion does.
\<close>

definition compositeId :: "jsval \<Rightarrow> jsval \<Rightarrow> js_error + string" where
  "compositeId role messageId =
     (case toString role of
        Inl err \<Rightarrow> Inl err
      | Inr r \<Rightarrow>
          (case toString messageId of
             Inl err \<Rightarrow> Inl err
           | Inr m \<Rightarrow> Inr (r @ ''-'' @ m)))"

text \<open>
  The transcript branch of \<^verbatim>\<open>handleAppMessage\<close> up to the callback: it resolves the
  message id (an explicit \<^verbatim>\<open>messageId\<close>, or the next value of the counter chosen by
  \<^verbatim>\<open>role === 'user'\<close>) and builds the message. It returns the state with the counter
  advanced, and the message, or the TypeError of the template literal: the counter is
  advanced before the literal is evaluated, so it stays advanced when the literal throws.
  \<open>now\<close> is what \<^verbatim>\<open>Date.now()\<close> returns.
\<close>

definition transcriptMessage ::
  "world \<Rightarrow> jsval \<Rightarrow> int \<Rightarrow> world \<times> (js_error + TranscriptMessage)" where
  "transcriptMessage w data now =
     (let role = field data ''role'';
          (w1, messageId) =
            (if not_nullish (field data ''messageId'') then (w, field data ''messageId'')
             else if role = JStr ''user''
                  then (let n = js_incr (globalUserMessageId w)
                        in (w\<lparr>globalUserMessageId := n\<rparr>, JNum (int n)))
                  else (let n = js_incr (globalAssistantMessageId w)
                        in (w\<lparr>globalAssistantMessageId := n\<rparr>, JNum (int n))))
      in (w1, case compositeId role messageId of
                Inl err \<Rightarrow> Inl err
              | Inr cid \<Rightarrow>
                  Inr \<lparr> tm_id = cid,
                        tm_role = role,
                        tm_text = field data ''text'',
                        tm_timestamp = nullish_or (field data ''timestamp'') (JNum now),
                        tm_final = nullish_or (field data ''final'') (JBool True) \<rparr>))"

text \<open>
  \<open>handleAppMessage w data now\<close>: the handler of the transport's app-message event.
  Reading \<^verbatim>\<open>data.type\<close> of null or undefined throws, the \<^verbatim>\<open>catch\<close> logs it, and
  nothing changes. When the template literal of the transcript branch throws, the
  \<^verbatim>\<open>catch\<close> logs it and no message reaches the callback. The callbacks are those App
  registers.
\<close>

definition handleAppMessage :: "world \<Rightarrow> jsval \<Rightarrow> int \<Rightarrow> world" where
  "handleAppMessage w data now =
     (if \<not> not_nullish data then w
      else if field data ''type'' = JStr ''status'' then
        (let status = field data ''status''
         in handleStatusChange status (w\<lparr>pipelineStatus := status\<rparr>))
      else if field data ''type'' = JStr ''transcript'' then
        (let (w1, built) = transcriptMessage w data now
         in case built of
              Inl err \<Rightarrow> w1
            | Inr message \<Rightarrow> handleTranscript message w1)
      else if field data ''type'' = JStr ''log'' then
        handleLog \<lparr> lm_text = field data ''text'', lm_timestamp = now \<rparr> w
      else w)"

text \<open>
  \<open>disconnect w lv ds\<close>: \<open>lv\<close> and \<open>ds\<close> say how the awaited \<^verbatim>\<open>leave()\<close> and
  \<^verbatim>\<open>destroy()\<close> end. An await that rejects throws out of the async function, and one
  that never settles never resumes it: in both cases the statements after it do not run.
\<close>

definition disconnect :: "world \<Rightarrow> outcome \<Rightarrow> outcome \<Rightarrow> world" where
  "disconnect w lv ds =
     (case callObjectRef w of
        None \<Rightarrow> w\<lparr>connectionStatus := Disconnected, pipelineStatus := JStr ''idle''\<rparr>
      | Some c \<Rightarrow>
          (let w1 = w\<lparr>transportOps := transportOps w @ [Leave]\<rparr>
           in if lv \<noteq> Resolves then w1
              else (let w2 = w1\<lparr>transportOps := transportOps w1 @ [Destroy]\<rparr>
                    in if ds \<noteq> Resolves then w2
                       else w2\<lparr>callObjectRef := None, connectionStatus := Disconnected,
                               pipelineStatus := JStr ''idle''\<rparr>)))"

text \<open>The three lifecycle handlers that \<^verbatim>\<open>connect\<close> registers on the call object.\<close>

definition on_joined_meeting :: "world \<Rightarrow> world" where
  "on_joined_meeting w = w\<lparr>connectionStatus := Connected, pipelineStatus := JStr ''idle''\<rparr>"

definition on_left_meeting :: "world \<Rightarrow> world" where
  "on_left_meeting w = w\<lparr>connectionStatus := Disconnected, pipelineStatus := JStr ''idle''\<rparr>"

definition on_error :: "world \<Rightarrow> outcome \<Rightarrow> outcome \<Rightarrow> world" where
  "on_error w lv ds = disconnect (w\<lparr>connectionStatus := Disconnected\<rparr>) lv ds"

text \<open>
  \<open>connect w fr jn lv ds\<close>: \<open>fr\<close> is how the credential request ends, \<open>jn\<close> how
  \<^verbatim>\<open>join\<close> ends, and \<open>lv\<close>, \<open>ds\<close> how the \<^verbatim>\<open>disconnect()\<close> of the catch block goes.
  \<^verbatim>\<open>!sessionId\<close> holds for null and for the empty string. A call object created with
  \<^verbatim>\<open>audioSource: true\<close> has its microphone on. The callback reads the
  \<^verbatim>\<open>connectionStatus\<close> of the latest render, which is the current state here, since
  React renders after each event.
\<close>

definition connect :: "world \<Rightarrow> fetch_result \<Rightarrow> outcome \<Rightarrow> outcome \<Rightarrow> outcome \<Rightarrow> world" where
  "connect w fr jn lv ds =
     (if connectionStatus w \<noteq> Disconnected \<or> sessionId w = None \<or> sessionId w = Some []
      then w
      else
        (let w1 = w\<lparr>connectionStatus := Connecting\<rparr>
         in case fr of
              FetchPending \<Rightarrow> w1
            | FetchOk \<Rightarrow>
                (let w2 = w1\<lparr>callObjectRef := Some \<lparr>localAudio = True\<rparr>,
                              transportOps := transportOps w1 @ [Create, Join]\<rparr>
                 in if jn = Rejects
                    then disconnect (w2\<lparr>connectionStatus := Disconnected\<rparr>) lv ds
                    else w2)
            | FetchNotOk \<Rightarrow> disconnect (w1\<lparr>connectionStatus := Disconnected\<rparr>) lv ds
            | FetchRejects \<Rightarrow> disconnect (w1\<lparr>connectionStatus := Disconnected\<rparr>) lv ds))"

definition toggleMute :: "world \<Rightarrow> world" where
  "toggleMute w =
     (case callObjectRef w of
        None \<Rightarrow> w
      | Some c \<Rightarrow>
          (let currentMuteState = (localAudio c = False)
           in w\<lparr>callObjectRef := Some (c\<lparr>localAudio := currentMuteState\<rparr>),
                transportOps := transportOps w @ [SetLocalAudio currentMuteState],
                isMuted := \<not> currentMuteState\<rparr>))"

section \<open>Events and effects\<close>

text \<open>
  Everything that happens to the client is one of these events: a transport callback,
  a call of the facade by the user, the answer to the session request App makes on
  mount, or the component being unmounted and mounted again. Each handler runs to
  completion; React then renders and runs the effects whose dependencies changed.
\<close>

datatype event =
    AppMessage jsval int
  | JoinedMeeting
  | LeftMeeting
  | TransportError outcome outcome
  | ConnectCall fetch_result outcome outcome outcome
  | DisconnectCall outcome outcome
  | ToggleMuteCall
  | SessionCreated "string option"
  | Remount

text \<open>
  Unmounting runs the cleanup of the hook (leave and destroy, not awaited); mounting
  starts every state and ref cell from its initial value. The module-level counters are
  not part of any component and keep their values.
\<close>

definition remount :: "world \<Rightarrow> world" where
  "remount w =
     init_world
       \<lparr> globalUserMessageId := globalUserMessageId w,
         globalAssistantMessageId := globalAssistantMessageId w,
         transportOps := (case callObjectRef w of
                            None \<Rightarrow> transportOps w
                          | Some c \<Rightarrow> transportOps w @ [Leave, Destroy]) \<rparr>"

fun handler :: "world \<Rightarrow> event \<Rightarrow> world" where
  "handler w (AppMessage data now) = handleAppMessage w data now"
| "handler w JoinedMeeting = on_joined_meeting w"
| "handler w LeftMeeting = on_left_meeting w"
| "handler w (TransportError lv ds) = on_error w lv ds"
| "handler w (ConnectCall fr jn lv ds) = connect w fr jn lv ds"
| "handler w (DisconnectCall lv ds) = disconnect w lv ds"
| "handler w ToggleMuteCall = toggleMute w"
| "handler w (SessionCreated sid) = (case sid of None \<Rightarrow> w | Some s \<Rightarrow> w\<lparr>sessionId := Some s\<rparr>)"
| "handler w Remount = remount w"

text \<open>
  The effect of App with dependency \<^verbatim>\<open>[isConnected]\<close>: it runs when \<^verbatim>\<open>isConnected\<close>
  differs from the previous render, and clears the logs and messages when it is false.
\<close>

definition clear_effect :: "bool \<Rightarrow> world \<Rightarrow> world" where
  "clear_effect prevIsConnected w =
     (if isConnected w \<noteq> prevIsConnected \<and> \<not> isConnected w
      then w\<lparr>logs := [], messages := []\<rparr> else w)"

definition step :: "world \<Rightarrow> event \<Rightarrow> world" where
  "step w e = clear_effect (isConnected w) (handler w e)"

definition run :: "world \<Rightarrow> event list \<Rightarrow> world" where
  "run w es = foldl step w es"

section \<open>Predicates on events\<close>

text \<open>An app message whose \<^verbatim>\<open>type\<close> is \<^verbatim>\<open>status\<close>.\<close>

fun is_status_message :: "event \<Rightarrow> bool" where
  "is_status_message (AppMessage data now) = (field data ''type'' = JStr ''status'')"
| "is_status_message e = False"

text \<open>A status message, if it is one, carries one of the five values of the protocol.\<close>

fun status_typed :: "event \<Rightarrow> bool" where
  "status_typed (AppMessage data now) =
     (if field data ''type'' = JStr ''status'' then field data ''status'' \<in> PipelineStatus
      else True)"
| "status_typed e = True"

text \<open>A transcript message, if it is one, carries the role user or assistant.\<close>

fun role_typed :: "event \<Rightarrow> bool" where
  "role_typed (AppMessage data now) =
     (if field data ''type'' = JStr ''transcript''
      then field data ''role'' = JStr ''user'' \<or> field data ''role'' = JStr ''assistant''
      else True)"
| "role_typed e = True"

text \<open>A transcript message that omits \<^verbatim>\<open>messageId\<close>.\<close>

fun is_idless_transcript :: "event \<Rightarrow> bool" where
  "is_idless_transcript (AppMessage data now) =
     (field data ''type'' = JStr ''transcript'' \<and> \<not> not_nullish (field data ''messageId''))"
| "is_idless_transcript e = False"

text \<open>A transcript or log message: the events that add to the stores App holds.\<close>

fun is_store_message :: "event \<Rightarrow> bool" where
  "is_store_message (AppMessage data now) =
     (field data ''type'' = JStr ''transcript'' \<or> field data ''type'' = JStr ''log'')"
| "is_store_message e = False"

text \<open>A log message, and the entry \<^verbatim>\<open>handleAppMessage\<close> builds from it.\<close>

fun is_log_message :: "event \<Rightarrow> bool" where
  "is_log_message (AppMessage data now) = (field data ''type'' = JStr ''log'')"
| "is_log_message e = False"

fun log_of :: "event \<Rightarrow> LogMessage" where
  "log_of (AppMessage data now) = \<lparr>lm_text = field data ''text'', lm_timestamp = now\<rparr>"
| "log_of e = \<lparr>lm_text = JUndefined, lm_timestamp = 0\<rparr>"

text \<open>Along a run, every transcript or log message arrives while connected.\<close>

fun stored_only_connected :: "world \<Rightarrow> event list \<Rightarrow> bool" where
  "stored_only_connected w [] = True"
| "stored_only_connected w (e # es) =
     ((if is_store_message e then isConnected w else True) \<and> stored_only_connected (step w e) es)"

text \<open>
  A stored message whose id starts with its role and a dash, the role being user or
  assistant: what \<open>compositeId\<close> produces for the two roles of the protocol.
\<close>

definition role_tagged :: "TranscriptMessage \<Rightarrow> bool" where
  "role_tagged m =
     ((tm_role m = JStr ''user'' \<and> take 5 (tm_id m) = ''user-'') \<or>
      (tm_role m = JStr ''assistant'' \<and> take 10 (tm_id m) = ''assistant-''))"


text \<open>
  The entry the specification describes for a transcript message stored under the id
  \<open>cid\<close>: the role and text of the payload, its timestamp or else the time of receipt,
  and its final flag or else true.
\<close>

fun spec_entry :: "string \<Rightarrow> event \<Rightarrow> TranscriptMessage" where
  "spec_entry cid (AppMessage data now) =
     \<lparr> tm_id = cid,
       tm_role = field data ''role'',
       tm_text = field data ''text'',
       tm_timestamp = (if field data ''timestamp'' = JUndefined \<or> field data ''timestamp'' = JNull
                       then JNum now else field data ''timestamp''),
       tm_final = (if field data ''final'' = JUndefined \<or> field data ''final'' = JNull
                   then JBool True else field data ''final'') \<rparr>"
| "spec_entry cid e = \<lparr> tm_id = cid, tm_role = JUndefined, tm_text = JUndefined,
       tm_timestamp = JUndefined, tm_final = JUndefined \<rparr>"

text \<open>An app message, of any type.\<close>

fun is_app_message :: "event \<Rightarrow> bool" where
  "is_app_message (AppMessage data now) = True"
| "is_app_message e = False"

text \<open>
  The messages \<^verbatim>\<open>handleAppMessage\<close> passes to the transcript callback along a run, in
  order: one for each transcript message whose template literal does not throw.
\<close>

fun delivered :: "world \<Rightarrow> event list \<Rightarrow> TranscriptMessage list" where
  "delivered w [] = []"
| "delivered w (e # es) =
     (case e of
        AppMessage data now \<Rightarrow>
          (if field data ''type'' = JStr ''transcript''
           then (case snd (transcriptMessage w data now) of
                   Inl err \<Rightarrow> []
                 | Inr m \<Rightarrow> [m])
           else [])
      | _ \<Rightarrow> []) @ delivered (step w e) es"

text \<open>The counter that \<^verbatim>\<open>role === 'user' ? \<dots> : \<dots>\<close> selects for a role.\<close>

definition counter_of :: "jsval \<Rightarrow> world \<Rightarrow> nat" where
  "counter_of role w =
     (if role = JStr ''user'' then globalUserMessageId w else globalAssistantMessageId w)"

section \<open>Example inputs\<close>

definition statusData :: "string \<Rightarrow> jsval" where
  "statusData s = JObj [(''type'', JStr ''status''), (''status'', JStr s)]"

text \<open>A transcript payload with an explicit \<^verbatim>\<open>messageId\<close>, and one without.\<close>

definition transcriptData :: "string \<Rightarrow> int \<Rightarrow> string \<Rightarrow> bool \<Rightarrow> jsval" where
  "transcriptData r n t f =
     JObj [(''type'', JStr ''transcript''), (''role'', JStr r), (''messageId'', JNum n),
           (''text'', JStr t), (''final'', JBool f)]"

definition idlessData :: "string \<Rightarrow> string \<Rightarrow> jsval" where
  "idlessData r t = JObj [(''type'', JStr ''transcript''), (''role'', JStr r), (''text'', JStr t)]"

definition logData :: "string \<Rightarrow> jsval" where
  "logData t = JObj [(''type'', JStr ''log''), (''text'', JStr t)]"

text \<open>The session is created, connect obtains credentials, and the join is under way.\<close>

definition connecting_trace :: "event list" where
  "connecting_trace =
     [SessionCreated (Some ''s1''), ConnectCall FetchOk Pending Resolves Resolves]"

text \<open>The same, with the join completed and the joined-meeting event delivered.\<close>

definition connected_trace :: "event list" where
  "connected_trace =
     [SessionCreated (Some ''s1''), ConnectCall FetchOk Resolves Resolves Resolves, JoinedMeeting]"

text \<open>Connect is called and the credential request has not been answered.\<close>

definition fetching_trace :: "event list" where
  "fetching_trace =
     [SessionCreated (Some ''s1''), ConnectCall FetchPending Resolves Resolves Resolves]"

text \<open>Twenty-one log messages, numbered 0 to 20, received at times 0 to 20.\<close>

definition log_burst :: "event list" where
  "log_burst = map (\<lambda>i. AppMessage (logData (digits i)) (int i)) [0..<21]"

text \<open>
  A session in which the user mutes, disconnects and connects again: the new call
  object has its microphone on.
\<close>

definition remute_trace :: "event list" where
  "remute_trace =
     connected_trace @
     [ToggleMuteCall, DisconnectCall Resolves Resolves,
      ConnectCall FetchOk Resolves Resolves Resolves, JoinedMeeting]"

text \<open>
  A connected session whose transport reports an error; the \<^verbatim>\<open>leave()\<close> that the
  error handler starts has not settled, so the call object is still there.
\<close>

definition erroring_trace :: "event list" where
  "erroring_trace = connected_trace @ [TransportError Pending Resolves]"

text \<open>A connected session that receives the four non-idle status values in turn.\<close>

definition status_tour :: "event list" where
  "status_tour =
     connected_trace @
     map (\<lambda>s. AppMessage (statusData s) 0) [''listening'', ''stt'', ''llm'', ''tts'']"


text \<open>
  An utterance delivered as final and then delivered again, under the same id, as not
  final; and a connected session that receives the two.
\<close>

definition revert_updates :: "event list" where
  "revert_updates =
     [AppMessage (transcriptData ''user'' 1 ''hi'' True) 1,
      AppMessage (transcriptData ''user'' 1 ''hi'' False) 2]"

definition revert_trace :: "event list" where
  "revert_trace = connected_trace @ revert_updates"

text \<open>
  Two transcript messages outside the protocol's types whose ids coincide: the role
  user with the message id 1-2 (a string), and the role user-1 with the message id 2.
\<close>

definition role_clash_trace :: "event list" where
  "role_clash_trace =
     connected_trace @
     [AppMessage (JObj [(''type'', JStr ''transcript''), (''role'', JStr ''user''),
                        (''messageId'', JStr ''1-2''), (''text'', JStr ''a'')]) 1,
      AppMessage (JObj [(''type'', JStr ''transcript''), (''role'', JStr ''user-1''),
                        (''messageId'', JNum 2), (''text'', JStr ''b'')]) 2]"



text \<open>
  A transcript message without id whose role is an object with a key toString of its
  own: the template literal throws on it.
\<close>

definition unprintable_role_data :: jsval where
  "unprintable_role_data =
     JObj [(''type'', JStr ''transcript''), (''role'', JObj [(''toString'', JNum 1)]),
           (''text'', JStr ''x'')]"

text \<open>
  A connected session that receives a user message with the explicit id 1 and then a
  user message without an id.
\<close>

definition collision_trace :: "event list" where
  "collision_trace =
     connected_trace @
     [AppMessage (transcriptData ''user'' 1 ''first'' True) 1,
      AppMessage (idlessData ''user'' ''second'') 2]"

text \<open>
  A user message without an id is received, the user disconnects and connects again,
  and a second user message without an id is received.
\<close>

definition reconnect_trace :: "event list" where
  "reconnect_trace =
     connected_trace @
     [AppMessage (idlessData ''user'' ''one'') 1, DisconnectCall Resolves Resolves,
      ConnectCall FetchOk Resolves Resolves Resolves, JoinedMeeting,
      AppMessage (idlessData ''user'' ''two'') 2]"

text \<open>
  The same, with the component unmounted and mounted again, and a new session created,
  in place of the disconnect.
\<close>

definition remount_trace :: "event list" where
  "remount_trace =
     connected_trace @
     [AppMessage (idlessData ''user'' ''one'') 1, Remount, SessionCreated (Some ''s2''),
      ConnectCall FetchOk Resolves Resolves Resolves, JoinedMeeting,
      AppMessage (idlessData ''user'' ''two'') 2]"

text \<open>A transcript and a log message arrive while the join is still under way.\<close>

definition stray_trace :: "event list" where
  "stray_trace =
     connecting_trace @
     [AppMessage (idlessData ''assistant'' ''hello'') 1, AppMessage (logData ''started'') 2]"

text \<open>Disconnect, connect again, joined.\<close>

definition reconnect_events :: "event list" where
  "reconnect_events =
     [DisconnectCall Resolves Resolves, ConnectCall FetchOk Resolves Resolves Resolves,
      JoinedMeeting]"

text \<open>A connected session that stores two messages and a log, then leaves the meeting.\<close>

definition chat_then_leave :: "event list" where
  "chat_then_leave =
     connected_trace @
     [AppMessage (idlessData ''user'' ''hi'') 1, AppMessage (logData ''heard'') 2,
      AppMessage (transcriptData ''assistant'' 7 ''hello'' True) 3, LeftMeeting]"

section \<open>JavaScript helpers\<close>

text \<open>The equations that evaluate the model on a concrete run.\<close>

lemmas world_eval =
  run_def step_def clear_effect_def isConnected_def handleAppMessage_def transcriptMessage_def
  handleTranscript_def handleLog_def handleStatusChange_def upsert_def append_log_def slice_def
  compositeId_def show_int_def digits.simps digit_char_def js_incr_def nullish_or_def
  disconnect_def connect_def toggleMute_def on_joined_meeting_def on_left_meeting_def
  on_error_def remount_def init_world_def Let_def

lemma field_JStr_not_nullish: "field data k = JStr s \<Longrightarrow> not_nullish data"
  by (cases data) simp_all

lemma slice_last19: "slice (-19) xs = drop (length xs - 19) xs"
  by (auto simp: slice_def Let_def max_def intro: arg_cong2[where f=drop])

section \<open>App messages leave the connection alone\<close>

lemma handleAppMessage_connectionStatus:
  "connectionStatus (handleAppMessage w data now) = connectionStatus w"
  by (simp add: handleAppMessage_def handleStatusChange_def handleTranscript_def handleLog_def
      transcriptMessage_def Let_def split: prod.splits sum.splits)

lemma step_AppMessage: "step w (AppMessage data now) = handleAppMessage w data now"
  by (simp add: step_def clear_effect_def isConnected_def handleAppMessage_connectionStatus)

section \<open>The log buffer\<close>

lemma append_log_eq: "append_log l prev = drop (length prev - 19) prev @ [l]"
  by (simp add: append_log_def slice_last19)

lemma length_append_log: "length (append_log l prev) \<le> 20"
  by (simp add: append_log_eq)

lemma append_log_window:
  "length prev \<le> 20 \<Longrightarrow> append_log l prev = drop (length (prev @ [l]) - 20) (prev @ [l])"
  by (simp add: append_log_eq)

lemma append_log_full: "length prev = 20 \<Longrightarrow> append_log l prev = tl prev @ [l]"
  by (cases prev) (simp_all add: append_log_eq)

lemma handleAppMessage_logs:
  "logs (handleAppMessage w data now) =
     (if not_nullish data \<and> field data ''type'' = JStr ''log''
      then append_log \<lparr>lm_text = field data ''text'', lm_timestamp = now\<rparr> (logs w)
      else logs w)"
  by (simp add: handleAppMessage_def handleStatusChange_def handleTranscript_def handleLog_def
      transcriptMessage_def Let_def split: prod.splits sum.splits)

lemma disconnect_logs: "logs (disconnect w lv ds) = logs w"
  by (simp add: disconnect_def Let_def split: option.splits)

lemma connect_logs: "logs (connect w fr jn lv ds) = logs w"
  by (simp add: connect_def Let_def disconnect_logs split: fetch_result.splits)

lemma handler_logs_cases:
  "logs (handler w e) = logs w \<or> logs (handler w e) = [] \<or>
   (\<exists>l. logs (handler w e) = append_log l (logs w))"
proof (cases e)
  case (AppMessage data now)
  then show ?thesis by (auto simp: handleAppMessage_logs)
next
  case Remount
  then show ?thesis by (simp add: remount_def init_world_def)
qed (simp_all add: on_joined_meeting_def on_left_meeting_def on_error_def disconnect_logs
      connect_logs toggleMute_def Let_def split: option.splits)

lemma clear_effect_logs: "logs (clear_effect b w) = logs w \<or> logs (clear_effect b w) = []"
  by (simp add: clear_effect_def)

lemma step_logs_bound: "length (logs w) \<le> 20 \<Longrightarrow> length (logs (step w e)) \<le> 20"
  using handler_logs_cases[of w e] clear_effect_logs[of "isConnected w" "handler w e"]
    length_append_log
  unfolding step_def by (metis list.size(3) zero_le)

lemma run_logs_bound: "length (logs w) \<le> 20 \<Longrightarrow> length (logs (run w es)) \<le> 20"
  unfolding run_def by (induction es arbitrary: w) (simp_all add: step_logs_bound)

lemma step_log_message:
  "is_log_message e \<Longrightarrow> logs (step w e) = append_log (log_of e) (logs w)"
  by (cases e) (auto simp: step_AppMessage handleAppMessage_logs field_JStr_not_nullish)

lemma window_append:
  "length xs \<le> 20 \<Longrightarrow>
   drop (length (drop (length xs + 1 - 20) (xs @ [x])) + k - 20)
     (drop (length xs + 1 - 20) (xs @ [x]) @ ys)
   = drop (length xs + Suc k - 20) (xs @ x # ys)"
proof (cases "length xs = 20")
  case True
  then obtain y zs where xs: "xs = y # zs" by (cases xs) auto
  with True have "length zs = 19" by simp
  with xs show ?thesis by simp
next
  case False
  assume "length xs \<le> 20"
  with False have "length xs + 1 - 20 = 0" by simp
  then show ?thesis by simp
qed

lemma run_log_messages:
  "length (logs w) \<le> 20 \<Longrightarrow> \<forall>e\<in>set es. is_log_message e \<Longrightarrow>
   logs (run w es) = drop (length (logs w) + length es - 20) (logs w @ map log_of es)"
proof (induction es arbitrary: w)
  case Nil
  then show ?case by (simp add: run_def)
next
  case (Cons e es)
  have b: "length (logs (step w e)) \<le> 20" using Cons.prems(1) by (rule step_logs_bound)
  have s: "logs (step w e) = drop (length (logs w) + 1 - 20) (logs w @ [log_of e])"
    using Cons.prems by (simp add: step_log_message append_log_window)
  have "logs (run w (e # es)) = logs (run (step w e) es)" by (simp add: run_def)
  also have "\<dots> = drop (length (logs (step w e)) + length es - 20)
                    (logs (step w e) @ map log_of es)"
    using Cons.IH[OF b] Cons.prems(2) by simp
  also have "\<dots> = drop (length (logs w) + length (e # es) - 20) (logs w @ map log_of (e # es))"
    using window_append[OF Cons.prems(1), of "log_of e" "length es" "map log_of es"]
    by (simp add: s)
  finally show ?case .
qed

text \<open>
  Claim C7. Whatever events arrive, the log buffer App holds never has more than 20
  entries. Appending to a buffer of 20 drops its oldest entry and puts the new one last.
  After a sequence of log messages the buffer holds, in arrival order, the last 20 of
  the entries it held before followed by the new ones.
\<close>

theorem log_buffer_bounded:
  "length (logs (run init_world es)) \<le> 20 \<and>
   (length prev = 20 \<longrightarrow> append_log l prev = tl prev @ [l]) \<and>
   (length (logs w) \<le> 20 \<and> (\<forall>e\<in>set ls. is_log_message e) \<longrightarrow>
      logs (run w ls) = drop (length (logs w) + length ls - 20) (logs w @ map log_of ls))"
  using run_logs_bound[of init_world es] append_log_full[of prev l] run_log_messages[of w ls]
  by (simp add: init_world_def)

theorem log_buffer_bounded_witness:
  "length (logs (run init_world (take 20 log_burst))) = 20 \<and>
   list_all is_log_message log_burst \<and>
   logs (run init_world log_burst) = map log_of (drop 1 log_burst) \<and>
   append_log (log_of (log_burst ! 20)) (logs (run init_world (take 20 log_burst)))
     = tl (logs (run init_world (take 20 log_burst))) @ [log_of (log_burst ! 20)]"
proof -
  have a: "length (logs (run init_world (take 20 log_burst))) = 20" by code_simp
  have b: "list_all is_log_message log_burst" by code_simp
  have c: "length (logs init_world) \<le> 20" by (simp add: init_world_def)
  have d: "length log_burst = 21" by (simp add: log_burst_def)
  have e: "logs init_world = []" by (simp add: init_world_def)
  from log_buffer_bounded[of "[]" "logs (run init_world (take 20 log_burst))"
      "log_of (log_burst ! 20)" init_world log_burst] a b c d e
  show ?thesis by (simp add: list_all_iff drop_map)
qed

section \<open>Pipeline status and status messages\<close>

text \<open>
  Claim C1, as stated, fails: \<^verbatim>\<open>handleAppMessage\<close> never looks at the connection state.
  A status message that arrives while the join is under way (state connecting), or after
  a transport error has set the state to disconnected while the call object still
  exists, changes the pipeline status.
\<close>

theorem status_outside_connected_counterexample:
  "connectionStatus (run init_world connecting_trace) = Connecting \<and>
   pipelineStatus (run init_world connecting_trace) = JStr ''idle'' \<and>
   pipelineStatus (step (run init_world connecting_trace) (AppMessage (statusData ''listening'') 0))
     = JStr ''listening'' \<and>
   connectionStatus (run init_world erroring_trace) = Disconnected \<and>
   pipelineStatus (run init_world erroring_trace) = JStr ''idle'' \<and>
   pipelineStatus (step (run init_world erroring_trace) (AppMessage (statusData ''llm'') 0))
     = JStr ''llm''"
  by code_simp

lemma handleAppMessage_status:
  "field data ''type'' = JStr ''status'' \<Longrightarrow>
   handleAppMessage w data now =
     handleStatusChange (field data ''status'') (w\<lparr>pipelineStatus := field data ''status''\<rparr>)"
  by (simp add: handleAppMessage_def field_JStr_not_nullish Let_def)

lemma handleAppMessage_pipelineStatus:
  "field data ''type'' \<noteq> JStr ''status'' \<Longrightarrow>
   pipelineStatus (handleAppMessage w data now) = pipelineStatus w"
  by (simp add: handleAppMessage_def handleTranscript_def handleLog_def
      transcriptMessage_def Let_def split: prod.splits sum.splits)

lemma disconnect_pipelineStatus:
  "pipelineStatus (disconnect w lv ds) = pipelineStatus w \<or>
   pipelineStatus (disconnect w lv ds) = JStr ''idle''"
  by (simp add: disconnect_def Let_def split: option.splits)

lemma connect_pipelineStatus:
  "pipelineStatus (connect w fr jn lv ds) = pipelineStatus w \<or>
   pipelineStatus (connect w fr jn lv ds) = JStr ''idle''"
  by (simp add: connect_def disconnect_def Let_def split: fetch_result.splits option.splits)

lemma clear_effect_pipelineStatus: "pipelineStatus (clear_effect b w) = pipelineStatus w"
  by (simp add: clear_effect_def)

lemma step_pipelineStatus:
  "\<not> is_status_message e \<Longrightarrow>
   pipelineStatus (step w e) = pipelineStatus w \<or> pipelineStatus (step w e) = JStr ''idle''"
proof (cases e)
  case (AppMessage data now)
  assume "\<not> is_status_message e"
  with AppMessage show ?thesis
    by (simp add: step_AppMessage handleAppMessage_pipelineStatus)
next
  case (TransportError lv ds)
  then show ?thesis
    using disconnect_pipelineStatus[of "w\<lparr>connectionStatus := Disconnected\<rparr>" lv ds]
    by (simp add: step_def clear_effect_pipelineStatus on_error_def)
next
  case (ConnectCall fr jn lv ds)
  then show ?thesis using connect_pipelineStatus[of w fr jn lv ds]
    by (simp add: step_def clear_effect_pipelineStatus)
next
  case (DisconnectCall lv ds)
  then show ?thesis using disconnect_pipelineStatus[of w lv ds]
    by (simp add: step_def clear_effect_pipelineStatus)
qed (simp_all add: step_def clear_effect_pipelineStatus on_joined_meeting_def on_left_meeting_def
      toggleMute_def Let_def remount_def init_world_def split: option.splits)

text \<open>
  Claim C1, amended. A status message sets the pipeline status to the value it carries
  in every connection state, clears the current text unless the value is stt or
  listening, and changes nothing else: not the connection state, the stored messages
  and logs, the mute state, the transport or the counters. Every event that is not a
  status message leaves the pipeline status as it is or resets it to idle.
\<close>

theorem status_message_in_any_state:
  "(field data ''type'' = JStr ''status'' \<longrightarrow>
      step w (AppMessage data now) =
        w\<lparr>pipelineStatus := field data ''status'',
          currentText := (if field data ''status'' \<noteq> JStr ''stt'' \<and>
                             field data ''status'' \<noteq> JStr ''listening''
                          then [] else currentText w)\<rparr>) \<and>
   (\<not> is_status_message e \<longrightarrow>
      pipelineStatus (step w e) = pipelineStatus w \<or> pipelineStatus (step w e) = JStr ''idle'')"
  using step_pipelineStatus[of e w]
  by (simp add: step_AppMessage handleAppMessage_status handleStatusChange_def)

theorem status_message_in_any_state_witness:
  "field (statusData ''tts'') ''type'' = JStr ''status'' \<and>
   connectionStatus (run init_world connecting_trace) = Connecting \<and>
   step (run init_world connecting_trace) (AppMessage (statusData ''tts'') 3)
     = (run init_world connecting_trace)\<lparr>pipelineStatus := JStr ''tts'', currentText := []\<rparr> \<and>
   \<not> is_status_message ToggleMuteCall \<and>
   pipelineStatus (step (run init_world connecting_trace) ToggleMuteCall) = JStr ''idle''"
proof -
  have a: "field (statusData ''tts'') ''type'' = JStr ''status''" by (simp add: statusData_def)
  have b: "field (statusData ''tts'') ''status'' = JStr ''tts''" by (simp add: statusData_def)
  have c: "connectionStatus (run init_world connecting_trace) = Connecting" by code_simp
  have e: "pipelineStatus (run init_world connecting_trace) = JStr ''idle''" by code_simp
  from status_message_in_any_state[of "statusData ''tts''" "run init_world connecting_trace" 3
      ToggleMuteCall] a b c e
  show ?thesis by auto
qed

text \<open>
  Claim C6, as stated, fails: the value of \<^verbatim>\<open>data.status\<close> is stored unchecked, so a
  status message carrying a value outside the enumeration leaves the pipeline status
  outside it.
\<close>

theorem unchecked_status_counterexample:
  "pipelineStatus (step (run init_world connected_trace) (AppMessage (statusData ''bogus'') 0))
     = JStr ''bogus'' \<and>
   JStr ''bogus'' \<notin> PipelineStatus"
  by code_simp

lemma idle_in_PipelineStatus: "JStr ''idle'' \<in> PipelineStatus"
  by (simp add: PipelineStatus_def)

lemma step_PipelineStatus:
  assumes "pipelineStatus w \<in> PipelineStatus" and "status_typed e"
  shows "pipelineStatus (step w e) \<in> PipelineStatus"
proof (cases "is_status_message e")
  case True
  then obtain data now where e: "e = AppMessage data now" and t: "field data ''type'' = JStr ''status''"
    by (cases e) auto
  with assms(2) have "field data ''status'' \<in> PipelineStatus" by simp
  with e t show ?thesis
    by (simp add: step_AppMessage handleAppMessage_status handleStatusChange_def)
next
  case False
  from step_pipelineStatus[OF False, of w] assms(1) show ?thesis
    by (auto simp: idle_in_PipelineStatus)
qed

lemma run_PipelineStatus:
  "pipelineStatus w \<in> PipelineStatus \<Longrightarrow> \<forall>e\<in>set es. status_typed e \<Longrightarrow>
   pipelineStatus (run w es) \<in> PipelineStatus"
  unfolding run_def by (induction es arbitrary: w) (simp_all add: step_PipelineStatus)

text \<open>
  Claim C6, amended. Starting from the initial state, after any sequence of events in
  which every status message carries one of the five values, the pipeline status is
  one of the five values.
\<close>

theorem pipeline_status_in_enum:
  "\<forall>e\<in>set es. status_typed e \<Longrightarrow> pipelineStatus (run init_world es) \<in> PipelineStatus"
  by (rule run_PipelineStatus) (simp_all add: init_world_def idle_in_PipelineStatus)

theorem pipeline_status_in_enum_witness:
  "list_all status_typed status_tour \<and>
   pipelineStatus (run init_world status_tour) = JStr ''tts'' \<and>
   pipelineStatus (run init_world status_tour) \<in> PipelineStatus"
proof -
  have a: "list_all status_typed status_tour" by code_simp
  have b: "pipelineStatus (run init_world status_tour) = JStr ''tts''" by code_simp
  from a have "\<forall>e\<in>set status_tour. status_typed e" by (simp add: list_all_iff)
  from pipeline_status_in_enum[OF this] a b show ?thesis by simp
qed

section \<open>Disconnect\<close>

text \<open>
  Claim C2, as stated, fails twice. With an active transport whose \<^verbatim>\<open>leave()\<close>
  rejects, \<^verbatim>\<open>disconnect\<close> stops at the await: the state stays connected and the call
  object stays in its ref. With no transport, while connect is still waiting for the
  credentials, \<^verbatim>\<open>disconnect\<close> is not a no-op: it moves the state from connecting to
  disconnected.
\<close>

theorem disconnect_counterexample:
  "callObjectRef (run init_world connected_trace) = Some \<lparr>localAudio = True\<rparr> \<and>
   connectionStatus (disconnect (run init_world connected_trace) Rejects Resolves) = Connected \<and>
   callObjectRef (disconnect (run init_world connected_trace) Rejects Resolves) = Some \<lparr>localAudio = True\<rparr> \<and>
   callObjectRef (run init_world fetching_trace) = None \<and>
   connectionStatus (run init_world fetching_trace) = Connecting \<and>
   connectionStatus (disconnect (run init_world fetching_trace) Resolves Resolves) = Disconnected"
  by code_simp

text \<open>
  Claim C2, amended. With no active transport \<^verbatim>\<open>disconnect\<close> invokes nothing on the
  transport and sets the state to disconnected and the pipeline status to idle. With an
  active transport whose leave and destroy both resolve, it invokes leave and destroy,
  clears the ref and sets disconnected and idle. A further \<^verbatim>\<open>disconnect\<close> after a
  completed one changes nothing, however its transport calls would end.
\<close>

theorem disconnect_teardown:
  "(callObjectRef w = None \<longrightarrow>
      disconnect w lv ds = w\<lparr>connectionStatus := Disconnected, pipelineStatus := JStr ''idle''\<rparr>) \<and>
   (callObjectRef w \<noteq> None \<longrightarrow>
      disconnect w Resolves Resolves =
        w\<lparr>transportOps := transportOps w @ [Leave, Destroy], callObjectRef := None,
          connectionStatus := Disconnected, pipelineStatus := JStr ''idle''\<rparr>) \<and>
   disconnect (disconnect w Resolves Resolves) lv ds = disconnect w Resolves Resolves"
  by (auto simp: disconnect_def Let_def split: option.splits)

theorem disconnect_teardown_witness:
  "callObjectRef init_world = None \<and> disconnect init_world Rejects Pending = init_world \<and>
   callObjectRef (run init_world connected_trace) \<noteq> None \<and>
   connectionStatus (disconnect (run init_world connected_trace) Resolves Resolves) = Disconnected \<and>
   pipelineStatus (disconnect (run init_world connected_trace) Resolves Resolves) = JStr ''idle'' \<and>
   callObjectRef (disconnect (run init_world connected_trace) Resolves Resolves) = None"
proof -
  have a: "callObjectRef init_world = None" by (simp add: init_world_def)
  have b: "init_world\<lparr>connectionStatus := Disconnected, pipelineStatus := JStr ''idle''\<rparr> = init_world"
    by (simp add: init_world_def)
  have c: "callObjectRef (run init_world connected_trace) \<noteq> None" by code_simp
  from disconnect_teardown[of init_world Rejects Pending] a b
  have d: "disconnect init_world Rejects Pending = init_world" by simp
  from disconnect_teardown[of "run init_world connected_trace"] c
  have "disconnect (run init_world connected_trace) Resolves Resolves =
        (run init_world connected_trace)\<lparr>transportOps := transportOps (run init_world connected_trace) @ [Leave, Destroy], callObjectRef := None,
          connectionStatus := Disconnected, pipelineStatus := JStr ''idle''\<rparr>" by blast
  with a c d show ?thesis by simp
qed

section \<open>Mute\<close>

text \<open>
  Claim C8, as stated, fails: \<^verbatim>\<open>isMuted\<close> is computed from the transport's flag, not
  from its own previous value, and it is not reset on disconnect. After mute, disconnect
  and reconnect, the reported state is muted while the new call object's microphone is
  on, and two calls of \<^verbatim>\<open>toggleMute\<close> leave the reported state unmuted.
\<close>

theorem toggleMute_twice_counterexample:
  "callObjectRef (run init_world remute_trace) = Some \<lparr>localAudio = True\<rparr> \<and>
   isMuted (run init_world remute_trace) = True \<and>
   isMuted (toggleMute (toggleMute (run init_world remute_trace))) = False"
  by code_simp

text \<open>
  Claim C8, amended. With an active transport, two calls of \<^verbatim>\<open>toggleMute\<close> in
  succession invoke \<^verbatim>\<open>setLocalAudio\<close> exactly twice, return the transport's
  local-audio flag to its original value, and leave the reported mute state equal to the
  negation of that flag; so the reported state returns to its original value whenever it
  agreed with the transport before the first call. With no transport \<^verbatim>\<open>toggleMute\<close>
  changes nothing.
\<close>

theorem toggleMute_twice:
  "(callObjectRef w = Some c \<longrightarrow>
      callObjectRef (toggleMute (toggleMute w)) = Some c \<and>
      transportOps (toggleMute (toggleMute w)) =
        transportOps w @ [SetLocalAudio (\<not> localAudio c), SetLocalAudio (localAudio c)] \<and>
      isMuted (toggleMute w) = localAudio c \<and>
      isMuted (toggleMute (toggleMute w)) = (\<not> localAudio c) \<and>
      (isMuted w = (\<not> localAudio c) \<longrightarrow> isMuted (toggleMute (toggleMute w)) = isMuted w)) \<and>
   (callObjectRef w = None \<longrightarrow> toggleMute w = w)"
  by (auto simp: toggleMute_def Let_def)

theorem toggleMute_twice_witness:
  "callObjectRef (run init_world connected_trace) = Some \<lparr>localAudio = True\<rparr> \<and>
   isMuted (run init_world connected_trace) = (\<not> localAudio \<lparr>localAudio = True\<rparr>) \<and>
   isMuted (toggleMute (toggleMute (run init_world connected_trace)))
     = isMuted (run init_world connected_trace) \<and>
   transportOps (toggleMute (toggleMute (run init_world connected_trace))) =
     transportOps (run init_world connected_trace) @ [SetLocalAudio False, SetLocalAudio True] \<and>
   callObjectRef init_world = None \<and> toggleMute init_world = init_world"
proof -
  have a: "callObjectRef (run init_world connected_trace) = Some \<lparr>localAudio = True\<rparr>" by code_simp
  have b: "isMuted (run init_world connected_trace) = (\<not> localAudio \<lparr>localAudio = True\<rparr>)" by code_simp
  have c: "callObjectRef init_world = None" by (simp add: init_world_def)
  from toggleMute_twice[of "run init_world connected_trace" "\<lparr>localAudio = True\<rparr>"]
    toggleMute_twice[of init_world] a b c
  show ?thesis by simp
qed

section \<open>The transcript store\<close>

lemma upsert_Nil: "upsert m [] = [m]"
  by (simp add: upsert_def)

lemma upsert_Cons:
  "upsert m (x # xs) = (if tm_id x = tm_id m then m # xs else x # upsert m xs)"
  by (simp add: upsert_def Let_def nat_add_distrib)


lemma set_upsert: "set (upsert m xs) \<subseteq> insert m (set xs)"
  by (induction xs) (auto simp: upsert_Nil upsert_Cons)

lemma upsert_ids:
  "map tm_id (upsert m xs) =
     (if tm_id m \<in> tm_id ` set xs then map tm_id xs else map tm_id xs @ [tm_id m])"
  by (induction xs) (auto simp: upsert_Nil upsert_Cons)

lemma distinct_upsert: "distinct (map tm_id xs) \<Longrightarrow> distinct (map tm_id (upsert m xs))"
  by (simp add: upsert_ids)

lemma filter_upsert_same:
  "distinct (map tm_id xs) \<Longrightarrow> filter (\<lambda>e. tm_id e = tm_id m) (upsert m xs) = [m]"
proof (induction xs)
  case Nil
  then show ?case by (simp add: upsert_Nil)
next
  case (Cons x xs)
  show ?case
  proof (cases "tm_id x = tm_id m")
    case True
    from Cons.prems have "tm_id x \<notin> tm_id ` set xs" by simp
    with True have "tm_id m \<notin> tm_id ` set xs" by simp
    then have "filter (\<lambda>e. tm_id e = tm_id m) xs = []"
      by (auto simp: filter_empty_conv image_iff)
    with True show ?thesis by (simp add: upsert_Cons)
  next
    case False
    with Cons show ?thesis by (simp add: upsert_Cons)
  qed
qed

lemma filter_upsert_other:
  "tm_id m \<noteq> i \<Longrightarrow>
   filter (\<lambda>e. tm_id e = i) (upsert m xs) = filter (\<lambda>e. tm_id e = i) xs"
  by (induction xs) (auto simp: upsert_Nil upsert_Cons)

lemma filter_upsert:
  "distinct (map tm_id xs) \<Longrightarrow>
   filter (\<lambda>e. tm_id e = i) (upsert m xs) =
     (if tm_id m = i then [m] else filter (\<lambda>e. tm_id e = i) xs)"
  using filter_upsert_same[of xs m] filter_upsert_other[of m i xs] by auto

lemma distinct_foldl_upsert:
  "distinct (map tm_id xs) \<Longrightarrow> distinct (map tm_id (foldl (\<lambda>s m. upsert m s) xs ms))"
  by (induction ms arbitrary: xs) (simp_all add: distinct_upsert)

text \<open>
  After a sequence of upserts the store holds, for each id, the last message of the
  sequence with that id, or else what it held before.
\<close>

lemma foldl_upsert_latest:
  "distinct (map tm_id xs) \<Longrightarrow>
   filter (\<lambda>e. tm_id e = i) (foldl (\<lambda>s m. upsert m s) xs ms) =
     (case find (\<lambda>m. tm_id m = i) (rev ms) of
        Some m \<Rightarrow> [m]
      | None \<Rightarrow> filter (\<lambda>e. tm_id e = i) xs)"
proof (induction ms rule: rev_induct)
  case Nil
  then show ?case by simp
next
  case (snoc m ms)
  have d: "distinct (map tm_id (foldl (\<lambda>s m. upsert m s) xs ms))"
    using snoc.prems by (rule distinct_foldl_upsert)
  show ?case using snoc.IH[OF snoc.prems] by (simp add: filter_upsert[OF d])
qed

section \<open>The message built from a transcript payload\<close>

lemma not_nullish_iff: "not_nullish v \<longleftrightarrow> v \<noteq> JUndefined \<and> v \<noteq> JNull"
  by (cases v) simp_all

lemma nullish_or_eq: "nullish_or v d = (if v = JUndefined \<or> v = JNull then d else v)"
  by (simp add: nullish_or_def not_nullish_iff)

lemma show_int_nat: "show_int (int n) = digits n"
  by (simp add: show_int_def)

lemma transcriptMessage_explicit:
  "not_nullish (field data ''messageId'') \<Longrightarrow>
   transcriptMessage w data now =
     (w, case compositeId (field data ''role'') (field data ''messageId'') of
           Inl err \<Rightarrow> Inl err
         | Inr cid \<Rightarrow> Inr (spec_entry cid (AppMessage data now)))"
  by (simp add: transcriptMessage_def Let_def nullish_or_eq split: sum.splits)

lemma transcriptMessage_idless:
  "\<not> not_nullish (field data ''messageId'') \<Longrightarrow>
   snd (transcriptMessage w data now) =
     (case toString (field data ''role'') of
        Inl err \<Rightarrow> Inl err
      | Inr rs \<Rightarrow>
          Inr (spec_entry (rs @ ''-'' @ digits (js_incr (counter_of (field data ''role'') w)))
                 (AppMessage data now)))"
  by (simp add: transcriptMessage_def compositeId_def counter_of_def show_int_nat Let_def
      nullish_or_eq split: sum.splits)

lemma transcriptMessage_messages:
  "messages (fst (transcriptMessage w data now)) = messages w"
  by (simp add: transcriptMessage_def Let_def split: prod.splits if_splits)

lemma handleAppMessage_transcript:
  "field data ''type'' = JStr ''transcript'' \<Longrightarrow>
   handleAppMessage w data now =
     (case snd (transcriptMessage w data now) of
        Inl err \<Rightarrow> fst (transcriptMessage w data now)
      | Inr m \<Rightarrow> handleTranscript m (fst (transcriptMessage w data now)))"
  by (cases "transcriptMessage w data now")
     (simp add: handleAppMessage_def field_JStr_not_nullish split: sum.splits)

lemma handleAppMessage_messages:
  "messages (handleAppMessage w data now) =
     (if field data ''type'' = JStr ''transcript''
      then (case snd (transcriptMessage w data now) of
              Inl err \<Rightarrow> messages w
            | Inr m \<Rightarrow> upsert m (messages w))
      else messages w)"
proof (cases "field data ''type'' = JStr ''transcript''")
  case True
  then show ?thesis
    by (simp add: handleAppMessage_transcript handleTranscript_def transcriptMessage_messages
        split: sum.splits)
next
  case False
  then show ?thesis
    by (simp add: handleAppMessage_def handleStatusChange_def handleLog_def Let_def)
qed

lemma disconnect_messages: "messages (disconnect w lv ds) = messages w"
  by (simp add: disconnect_def Let_def split: option.splits)

lemma connect_messages: "messages (connect w fr jn lv ds) = messages w"
  by (simp add: connect_def Let_def disconnect_messages split: fetch_result.splits)

lemma handler_messages_cases:
  "messages (handler w e) = messages w \<or> messages (handler w e) = [] \<or>
   (\<exists>m. messages (handler w e) = upsert m (messages w))"
proof (cases e)
  case (AppMessage data now)
  then show ?thesis by (auto simp: handleAppMessage_messages split: sum.splits)
next
  case Remount
  then show ?thesis by (simp add: remount_def init_world_def)
qed (simp_all add: on_joined_meeting_def on_left_meeting_def on_error_def disconnect_messages
      connect_messages toggleMute_def Let_def split: option.splits)

lemma clear_effect_messages:
  "messages (clear_effect b w) = messages w \<or> messages (clear_effect b w) = []"
  by (simp add: clear_effect_def)

lemma step_distinct_ids:
  "distinct (map tm_id (messages w)) \<Longrightarrow> distinct (map tm_id (messages (step w e)))"
  using handler_messages_cases[of w e] clear_effect_messages[of "isConnected w" "handler w e"]
  unfolding step_def by (auto simp: distinct_upsert)

lemma run_append: "run w (es @ fs) = run (run w es) fs"
  by (simp add: run_def)

lemma run_Cons: "run w (e # es) = run (step w e) es"
  by (simp add: run_def)


lemma run_distinct_ids:
  "distinct (map tm_id (messages w)) \<Longrightarrow> distinct (map tm_id (messages (run w es)))"
  by (induction es arbitrary: w) (simp_all add: run_def step_distinct_ids)

lemma reachable_distinct_ids: "distinct (map tm_id (messages (run init_world es)))"
  by (rule run_distinct_ids) (simp add: init_world_def)

text \<open>Along a run of app messages the store is the fold of the upsert over what is delivered.\<close>

lemma step_messages_delivered:
  "is_app_message e \<Longrightarrow>
   messages (step w e) = foldl (\<lambda>s m. upsert m s) (messages w) (delivered w [e])"
  by (cases e) (simp_all add: step_AppMessage handleAppMessage_messages split: sum.splits)

lemma delivered_Cons: "delivered w (e # es) = delivered w [e] @ delivered (step w e) es"
  by simp

lemma run_messages_delivered:
  "\<forall>e\<in>set ds. is_app_message e \<Longrightarrow>
   messages (run w ds) = foldl (\<lambda>s m. upsert m s) (messages w) (delivered w ds)"
proof (induction ds arbitrary: w)
  case Nil
  then show ?case by (simp add: run_def)
next
  case (Cons e ds)
  from Cons.prems have e: "is_app_message e" and r: "\<forall>e\<in>set ds. is_app_message e" by simp_all
  have "messages (run w (e # ds)) = messages (run (step w e) ds)" by (simp add: run_Cons)
  also have "\<dots> = foldl (\<lambda>s m. upsert m s) (messages (step w e)) (delivered (step w e) ds)"
    using r by (rule Cons.IH)
  also have "\<dots> = foldl (\<lambda>s m. upsert m s) (messages w) (delivered w [e] @ delivered (step w e) ds)"
    by (simp only: step_messages_delivered[OF e] foldl_append)
  finally show ?case by (simp only: delivered_Cons[symmetric])
qed




section \<open>Role and final flag of a stored message\<close>

text \<open>
  Claim C3, as stated, fails. The store replaces the entry by the new message as a
  whole, so an update with final false, for an id whose stored entry has final true,
  leaves the stored entry with final false. And the role of an entry is fixed only
  for the two roles of the protocol: the role user with the id 1-2 and the role user-1
  with the id 2 share the id user-1-2, and the second update changes the stored role.
\<close>

theorem final_reverts_counterexample:
  "messages (run init_world (butlast revert_trace)) =
     [\<lparr>tm_id = ''user-1'', tm_role = JStr ''user'', tm_text = JStr ''hi'',
       tm_timestamp = JNum 1, tm_final = JBool True\<rparr>] \<and>
   messages (run init_world revert_trace) =
     [\<lparr>tm_id = ''user-1'', tm_role = JStr ''user'', tm_text = JStr ''hi'',
       tm_timestamp = JNum 2, tm_final = JBool False\<rparr>] \<and>
   messages (run init_world (butlast role_clash_trace)) =
     [\<lparr>tm_id = ''user-1-2'', tm_role = JStr ''user'', tm_text = JStr ''a'',
       tm_timestamp = JNum 1, tm_final = JBool True\<rparr>] \<and>
   messages (run init_world role_clash_trace) =
     [\<lparr>tm_id = ''user-1-2'', tm_role = JStr ''user-1'', tm_text = JStr ''b'',
       tm_timestamp = JNum 2, tm_final = JBool True\<rparr>]"
  by (simp add: world_eval revert_trace_def revert_updates_def role_clash_trace_def
      connected_trace_def transcriptData_def)

lemma prefix_clash: "take 5 s = ''user-'' \<Longrightarrow> take 10 s = ''assistant-'' \<Longrightarrow> False"
proof -
  assume a: "take 5 s = ''user-''" and b: "take 10 s = ''assistant-''"
  have "take 5 s = take 5 (take 10 s)" by simp
  also have "\<dots> = ''assis''" by (simp only: b) simp
  finally show False using a by simp
qed

lemma role_tagged_same_id:
  "role_tagged m \<Longrightarrow> role_tagged m' \<Longrightarrow> tm_id m' = tm_id m \<Longrightarrow> tm_role m' = tm_role m"
  by (auto simp: role_tagged_def dest: prefix_clash)

lemma transcriptMessage_role_tagged:
  "field data ''role'' = JStr ''user'' \<or> field data ''role'' = JStr ''assistant'' \<Longrightarrow>
   snd (transcriptMessage w data now) = Inr m \<Longrightarrow> role_tagged m"
  by (auto simp: transcriptMessage_def role_tagged_def compositeId_def Let_def
      split: prod.splits sum.splits if_splits)

lemma step_role_tagged:
  assumes "\<forall>m\<in>set (messages w). role_tagged m" and "role_typed e"
  shows "\<forall>m\<in>set (messages (step w e)). role_tagged m"
proof -
  have h: "\<forall>m\<in>set (messages (handler w e)). role_tagged m"
  proof (cases e)
    case (AppMessage data now)
    show ?thesis
    proof (cases "field data ''type'' = JStr ''transcript''")
      case True
      show ?thesis
      proof (cases "snd (transcriptMessage w data now)")
        case (Inl err)
        with assms(1) AppMessage True show ?thesis by (simp add: handleAppMessage_messages)
      next
        case (Inr m)
        with assms(2) AppMessage True have "role_tagged m"
          by (auto intro: transcriptMessage_role_tagged)
        with assms(1) set_upsert[of m "messages w"] AppMessage True Inr
        show ?thesis by (auto simp: handleAppMessage_messages)
      qed
    next
      case False
      with assms(1) AppMessage show ?thesis by (simp add: handleAppMessage_messages)
    qed
  next
    case Remount
    then show ?thesis by (simp add: remount_def init_world_def)
  qed (use assms(1) in \<open>simp_all add: on_joined_meeting_def on_left_meeting_def on_error_def
      disconnect_messages connect_messages toggleMute_def Let_def split: option.splits\<close>)
  from clear_effect_messages[of "isConnected w" "handler w e"] h show ?thesis
    unfolding step_def by auto
qed

lemma run_role_tagged:
  "\<forall>m\<in>set (messages w). role_tagged m \<Longrightarrow> \<forall>e\<in>set es. role_typed e \<Longrightarrow>
   \<forall>m\<in>set (messages (run w es)). role_tagged m"
proof (induction es arbitrary: w)
  case Nil
  then show ?case by (simp add: run_def)
next
  case (Cons e es)
  from Cons.prems(2) have "role_typed e" by simp
  with Cons.prems(1) have "\<forall>m\<in>set (messages (step w e)). role_tagged m"
    by (rule step_role_tagged)
  with Cons.IH[of "step w e"] Cons.prems(2) show ?case by (simp add: run_Cons)
qed

lemma reachable_role_tagged:
  "\<forall>e\<in>set es. role_typed e \<Longrightarrow> \<forall>m\<in>set (messages (run init_world es)). role_tagged m"
  by (rule run_role_tagged) (simp_all add: init_world_def)

lemma run_latest_update:
  assumes "\<forall>e\<in>set ds. is_app_message e"
  shows "filter (\<lambda>x. tm_id x = i) (messages (run (run init_world es) ds)) =
     (case find (\<lambda>x. tm_id x = i) (rev (delivered (run init_world es) ds)) of
        Some x \<Rightarrow> [x]
      | None \<Rightarrow> filter (\<lambda>x. tm_id x = i) (messages (run init_world es)))"
  by (simp only: run_messages_delivered[OF assms]
      foldl_upsert_latest[OF reachable_distinct_ids])

text \<open>
  Claim C3, amended. Along any run from the initial state in which every transcript
  message has the role user or assistant, two stored entries with the same id, one
  before and one after any further events, have the same role. Every message the
  handler delivers to the store carries the role and text of its payload and the
  payload's final flag, or true when the payload has none. After any sequence of app
  messages received in a reachable state, the store holds for every id, explicit or
  minted, exactly the latest message delivered for that id, or else what it held for
  that id before: so the stored final flag is that of the latest update, whatever the
  entry held, and the entries of all other ids stay as they were.
\<close>

theorem role_fixed_final_latest:
  "((\<forall>e\<in>set (es @ fs). role_typed e) \<and> m \<in> set (messages (run init_world es)) \<and>
     m' \<in> set (messages (run init_world (es @ fs))) \<and> tm_id m' = tm_id m
       \<longrightarrow> tm_role m' = tm_role m) \<and>
   (snd (transcriptMessage w data now) = Inr u \<longrightarrow>
      tm_role u = field data ''role'' \<and> tm_text u = field data ''text'' \<and>
      tm_final u = (if field data ''final'' = JUndefined \<or> field data ''final'' = JNull
                    then JBool True else field data ''final'')) \<and>
   ((\<forall>e\<in>set ds. is_app_message e) \<longrightarrow>
      filter (\<lambda>x. tm_id x = i) (messages (run (run init_world es) ds)) =
        (case find (\<lambda>x. tm_id x = i) (rev (delivered (run init_world es) ds)) of
           Some x \<Rightarrow> [x]
         | None \<Rightarrow> filter (\<lambda>x. tm_id x = i) (messages (run init_world es))))"
proof (intro conjI impI)
  assume a: "(\<forall>e\<in>set (es @ fs). role_typed e) \<and> m \<in> set (messages (run init_world es)) \<and>
     m' \<in> set (messages (run init_world (es @ fs))) \<and> tm_id m' = tm_id m"
  then have "\<forall>e\<in>set es. role_typed e" by simp
  from reachable_role_tagged[OF this] a have 1: "role_tagged m" by simp
  from a reachable_role_tagged[of "es @ fs"] have 2: "role_tagged m'" by simp
  from role_tagged_same_id[OF 1 2] a show "tm_role m' = tm_role m" by simp
next
  assume "snd (transcriptMessage w data now) = Inr u"
  then have u: "u = \<lparr> tm_id = tm_id u, tm_role = field data ''role'',
      tm_text = field data ''text'',
      tm_timestamp = nullish_or (field data ''timestamp'') (JNum now),
      tm_final = nullish_or (field data ''final'') (JBool True) \<rparr>"
    by (auto simp: transcriptMessage_def Let_def split: prod.splits sum.splits if_splits)
  show "tm_role u = field data ''role''" by (subst u) simp
  show "tm_text u = field data ''text''" by (subst u) simp
  show "tm_final u = (if field data ''final'' = JUndefined \<or> field data ''final'' = JNull
                      then JBool True else field data ''final'')"
    by (subst u) (simp add: nullish_or_def not_nullish_iff)
next
  assume "\<forall>e\<in>set ds. is_app_message e"
  then show "filter (\<lambda>x. tm_id x = i) (messages (run (run init_world es) ds)) =
        (case find (\<lambda>x. tm_id x = i) (rev (delivered (run init_world es) ds)) of
           Some x \<Rightarrow> [x]
         | None \<Rightarrow> filter (\<lambda>x. tm_id x = i) (messages (run init_world es)))"
    by (rule run_latest_update)
qed

theorem role_fixed_final_latest_witness:
  "list_all role_typed revert_trace \<and>
   list_all is_app_message (revert_updates @ [AppMessage (idlessData ''assistant'' ''yes'') 3]) \<and>
   delivered (run init_world connected_trace)
       (revert_updates @ [AppMessage (idlessData ''assistant'' ''yes'') 3]) =
     [\<lparr>tm_id = ''user-1'', tm_role = JStr ''user'', tm_text = JStr ''hi'',
       tm_timestamp = JNum 1, tm_final = JBool True\<rparr>,
      \<lparr>tm_id = ''user-1'', tm_role = JStr ''user'', tm_text = JStr ''hi'',
       tm_timestamp = JNum 2, tm_final = JBool False\<rparr>,
      \<lparr>tm_id = ''assistant-1'', tm_role = JStr ''assistant'', tm_text = JStr ''yes'',
       tm_timestamp = JNum 3, tm_final = JBool True\<rparr>] \<and>
   filter (\<lambda>x. tm_id x = ''user-1'')
       (messages (run (run init_world connected_trace)
          (revert_updates @ [AppMessage (idlessData ''assistant'' ''yes'') 3]))) =
     [\<lparr>tm_id = ''user-1'', tm_role = JStr ''user'', tm_text = JStr ''hi'',
       tm_timestamp = JNum 2, tm_final = JBool False\<rparr>] \<and>
   tm_role (hd (messages (run init_world revert_trace)))
     = tm_role (hd (messages (run init_world (butlast revert_trace)))) \<and>
   tm_final (hd (messages (run init_world revert_trace))) = JBool False"
proof -
  let ?d = "transcriptData ''user'' 1 ''hi'' False"
  let ?m1 = "\<lparr>tm_id = ''user-1'', tm_role = JStr ''user'', tm_text = JStr ''hi'',
       tm_timestamp = JNum 1, tm_final = JBool True\<rparr>"
  let ?m2 = "\<lparr>tm_id = ''user-1'', tm_role = JStr ''user'', tm_text = JStr ''hi'',
       tm_timestamp = JNum 2, tm_final = JBool False\<rparr>"
  let ?m3 = "\<lparr>tm_id = ''assistant-1'', tm_role = JStr ''assistant'', tm_text = JStr ''yes'',
       tm_timestamp = JNum 3, tm_final = JBool True\<rparr>"
  let ?w = "run init_world connected_trace"
  let ?ds = "revert_updates @ [AppMessage (idlessData ''assistant'' ''yes'') 3]"
  have a: "\<forall>e\<in>set revert_trace. role_typed e"
    by (simp add: revert_trace_def revert_updates_def connected_trace_def transcriptData_def)
  have b: "messages (run init_world (butlast revert_trace)) = [?m1]"
    by (simp add: world_eval revert_trace_def revert_updates_def connected_trace_def
        transcriptData_def)
  have c: "messages (run init_world revert_trace) = [?m2]"
    by (simp add: world_eval revert_trace_def revert_updates_def connected_trace_def
        transcriptData_def)
  have e: "butlast revert_trace @ [AppMessage ?d 2] = revert_trace"
    by (simp add: revert_trace_def revert_updates_def connected_trace_def)
  have f: "snd (transcriptMessage (run init_world (butlast revert_trace)) ?d 2) = Inr ?m2"
    by (simp add: world_eval revert_trace_def revert_updates_def connected_trace_def
        transcriptData_def)
  have g: "\<forall>e\<in>set ?ds. is_app_message e" by (simp add: revert_updates_def)
  have h: "delivered ?w ?ds = [?m1, ?m2, ?m3]"
    by (simp add: world_eval revert_updates_def connected_trace_def transcriptData_def
        idlessData_def)
  note T = role_fixed_final_latest[of "butlast revert_trace" "[AppMessage ?d 2]" ?m1 ?m2
      "run init_world (butlast revert_trace)" ?d 2 ?m2 ?ds "''user-1''", unfolded e b c]
  note T' = role_fixed_final_latest[of connected_trace "[]" ?m1 ?m2
      "run init_world (butlast revert_trace)" ?d 2 ?m2 ?ds "''user-1''"]
  from T a have r: "tm_role ?m2 = tm_role ?m1" by simp
  from T f have s: "tm_final ?m2 = JBool False" by (simp add: transcriptData_def)
  from T' g h have t: "filter (\<lambda>x. tm_id x = ''user-1'') (messages (run ?w ?ds)) = [?m2]"
    by simp
  from a g b c h r s t show ?thesis by (simp add: list_all_iff)
qed

section \<open>Explicit ids and the fallback counters\<close>

lemma handleAppMessage_counters:
  "globalUserMessageId (handleAppMessage w data now) =
     (if field data ''type'' = JStr ''transcript''
      then globalUserMessageId (fst (transcriptMessage w data now)) else globalUserMessageId w) \<and>
   globalAssistantMessageId (handleAppMessage w data now) =
     (if field data ''type'' = JStr ''transcript''
      then globalAssistantMessageId (fst (transcriptMessage w data now))
      else globalAssistantMessageId w)"
proof (cases "field data ''type'' = JStr ''transcript''")
  case True
  then show ?thesis
    by (simp add: handleAppMessage_transcript handleTranscript_def split: sum.splits)
next
  case False
  then show ?thesis
    by (simp add: handleAppMessage_def handleStatusChange_def handleLog_def Let_def)
qed

text \<open>
  Claim C10. A transcript message that carries a \<^verbatim>\<open>messageId\<close> leaves both counters
  as they are. So after a user message with the explicit id 1, stored as user-1, the
  first user message without an id is given the id user-1 too, and the store replaces
  the earlier entry instead of appending.
\<close>

theorem explicit_id_keeps_counters:
  "(field data ''type'' = JStr ''transcript'' \<and> not_nullish (field data ''messageId'') \<longrightarrow>
      globalUserMessageId (step w (AppMessage data now)) = globalUserMessageId w \<and>
      globalAssistantMessageId (step w (AppMessage data now)) = globalAssistantMessageId w) \<and>
   messages (run init_world (butlast collision_trace)) =
     [\<lparr>tm_id = ''user-1'', tm_role = JStr ''user'', tm_text = JStr ''first'',
       tm_timestamp = JNum 1, tm_final = JBool True\<rparr>] \<and>
   snd (transcriptMessage (run init_world (butlast collision_trace))
          (idlessData ''user'' ''second'') 2) =
     Inr \<lparr>tm_id = ''user-1'', tm_role = JStr ''user'', tm_text = JStr ''second'',
          tm_timestamp = JNum 2, tm_final = JBool True\<rparr> \<and>
   messages (run init_world collision_trace) =
     [\<lparr>tm_id = ''user-1'', tm_role = JStr ''user'', tm_text = JStr ''second'',
       tm_timestamp = JNum 2, tm_final = JBool True\<rparr>]"
proof -
  have 1: "messages (run init_world (butlast collision_trace)) =
     [\<lparr>tm_id = ''user-1'', tm_role = JStr ''user'', tm_text = JStr ''first'',
       tm_timestamp = JNum 1, tm_final = JBool True\<rparr>]"
    by (simp add: world_eval collision_trace_def connected_trace_def transcriptData_def
        idlessData_def)
  have 2: "snd (transcriptMessage (run init_world (butlast collision_trace))
          (idlessData ''user'' ''second'') 2) =
     Inr \<lparr>tm_id = ''user-1'', tm_role = JStr ''user'', tm_text = JStr ''second'',
          tm_timestamp = JNum 2, tm_final = JBool True\<rparr>"
    by (simp add: world_eval collision_trace_def connected_trace_def transcriptData_def
        idlessData_def)
  have 3: "messages (run init_world collision_trace) =
     [\<lparr>tm_id = ''user-1'', tm_role = JStr ''user'', tm_text = JStr ''second'',
       tm_timestamp = JNum 2, tm_final = JBool True\<rparr>]"
    by (simp add: world_eval collision_trace_def connected_trace_def transcriptData_def
        idlessData_def)
  show ?thesis using 1 2 3
    by (auto simp: step_AppMessage handleAppMessage_counters transcriptMessage_explicit)
qed

theorem explicit_id_keeps_counters_witness:
  "field (transcriptData ''user'' 1 ''first'' True) ''type'' = JStr ''transcript'' \<and>
   not_nullish (field (transcriptData ''user'' 1 ''first'' True) ''messageId'') \<and>
   globalUserMessageId (step (run init_world connected_trace)
       (AppMessage (transcriptData ''user'' 1 ''first'' True) 1)) = 0 \<and>
   globalAssistantMessageId (step (run init_world connected_trace)
       (AppMessage (transcriptData ''user'' 1 ''first'' True) 1)) = 0"
proof -
  have a: "field (transcriptData ''user'' 1 ''first'' True) ''type'' = JStr ''transcript''"
    by code_simp
  have b: "not_nullish (field (transcriptData ''user'' 1 ''first'' True) ''messageId'')"
    by code_simp
  have c: "globalUserMessageId (run init_world connected_trace) = 0" by code_simp
  have d: "globalAssistantMessageId (run init_world connected_trace) = 0" by code_simp
  from explicit_id_keeps_counters[of "transcriptData ''user'' 1 ''first'' True"
      "run init_world connected_trace" 1] a b c d
  show ?thesis by simp
qed

section \<open>The fallback counters\<close>

text \<open>
  Claim C4, as stated, fails in its last part: the counters are module-level variables,
  not state of the hook or of a connection. Nothing resets them: after a disconnect and
  a new connect, and equally after the component is mounted anew with a new session,
  the first user message without an id is given user-2, not user-1. It also fails for
  a message without id whose role the template literal cannot print: the counter that
  is not the user's is advanced, the literal throws, and the message gets no identity
  and is not stored.
\<close>

theorem counters_outlive_session_counterexample:
  "map tm_id (messages (run init_world (take 4 reconnect_trace))) = [''user-1''] \<and>
   messages (run init_world (take 7 reconnect_trace)) = [] \<and>
   map tm_id (messages (run init_world reconnect_trace)) = [''user-2''] \<and>
   globalUserMessageId (run init_world (take 5 remount_trace)) = 1 \<and>
   map tm_id (messages (run init_world remount_trace)) = [''user-2''] \<and>
   is_idless_transcript (AppMessage unprintable_role_data 4) \<and>
   messages (step (run init_world connected_trace) (AppMessage unprintable_role_data 4)) = [] \<and>
   globalAssistantMessageId
     (step (run init_world connected_trace) (AppMessage unprintable_role_data 4)) = 1"
  by (simp add: world_eval reconnect_trace_def remount_trace_def connected_trace_def
      idlessData_def unprintable_role_data_def)

lemma digit_char_inj: "a < 10 \<Longrightarrow> b < 10 \<Longrightarrow> digit_char a = digit_char b \<Longrightarrow> a = b"
proof -
  assume a: "a < 10" and b: "b < 10" and e: "digit_char a = digit_char b"
  have d: "distinct ''0123456789''" by simp
  have "length ''0123456789'' = 10" by simp
  with a b e d show ?thesis
    unfolding digit_char_def by (metis nth_eq_iff_index_eq)
qed

lemma digits_nonempty: "digits n \<noteq> []"
  by (subst digits.simps) simp

lemma digits_inj: "digits n = digits m \<Longrightarrow> n = m"
proof (induction n arbitrary: m rule: digits.induct)
  case (1 n)
  show ?case
  proof (cases "n < 10")
    case True
    then have dn: "digits n = [digit_char n]" by (subst digits.simps) simp
    show ?thesis
    proof (cases "m < 10")
      case mt: True
      then have "digits m = [digit_char m]" by (subst digits.simps) simp
      with dn "1.prems" True mt show ?thesis by (simp add: digit_char_inj)
    next
      case mf: False
      then have "digits m = digits (m div 10) @ [digit_char (m mod 10)]"
        by (subst digits.simps) simp
      with dn "1.prems" digits_nonempty[of "m div 10"] show ?thesis by simp
    qed
  next
    case False
    then have dn: "digits n = digits (n div 10) @ [digit_char (n mod 10)]"
      by (subst digits.simps) simp
    show ?thesis
    proof (cases "m < 10")
      case mt: True
      then have "digits m = [digit_char m]" by (subst digits.simps) simp
      with dn "1.prems" digits_nonempty[of "n div 10"] show ?thesis by simp
    next
      case mf: False
      then have dm: "digits m = digits (m div 10) @ [digit_char (m mod 10)]"
        by (subst digits.simps) simp
      from dn dm "1.prems" have e1: "digits (n div 10) = digits (m div 10)"
        and e2: "digit_char (n mod 10) = digit_char (m mod 10)" by simp_all
      from "1.IH"[OF False e1] have "n div 10 = m div 10" .
      moreover from e2 have "n mod 10 = m mod 10" by (simp add: digit_char_inj)
      ultimately show ?thesis by (metis div_mult_mod_eq)
    qed
  qed
qed

lemma js_incr_ge: "n \<le> js_incr n"
  by (simp add: js_incr_def)

lemma js_incr_small: "n < 2 ^ 53 \<Longrightarrow> js_incr n = n + 1"
  by (simp add: js_incr_def)

lemma mint_counter:
  "\<not> not_nullish (field data ''messageId'') \<Longrightarrow>
   counter_of (field data ''role'') (fst (transcriptMessage w data now)) =
     js_incr (counter_of (field data ''role'') w)"
  by (simp add: transcriptMessage_def counter_of_def Let_def)

lemma transcriptMessage_other_counter:
  "(field data ''role'' = JStr ''user'' \<longrightarrow>
      globalAssistantMessageId (fst (transcriptMessage w data now)) = globalAssistantMessageId w) \<and>
   (field data ''role'' = JStr ''assistant'' \<longrightarrow>
      globalUserMessageId (fst (transcriptMessage w data now)) = globalUserMessageId w)"
  by (simp add: transcriptMessage_def Let_def)

lemma transcriptMessage_counters_mono:
  "globalUserMessageId w \<le> globalUserMessageId (fst (transcriptMessage w data now)) \<and>
   globalAssistantMessageId w \<le> globalAssistantMessageId (fst (transcriptMessage w data now))"
  by (simp add: transcriptMessage_def Let_def js_incr_ge)

lemma disconnect_counters:
  "globalUserMessageId (disconnect w lv ds) = globalUserMessageId w \<and>
   globalAssistantMessageId (disconnect w lv ds) = globalAssistantMessageId w"
  by (simp add: disconnect_def Let_def split: option.splits)

lemma connect_counters:
  "globalUserMessageId (connect w fr jn lv ds) = globalUserMessageId w \<and>
   globalAssistantMessageId (connect w fr jn lv ds) = globalAssistantMessageId w"
  by (simp add: connect_def Let_def disconnect_counters split: fetch_result.splits)

lemma clear_effect_counters:
  "globalUserMessageId (clear_effect b w) = globalUserMessageId w \<and>
   globalAssistantMessageId (clear_effect b w) = globalAssistantMessageId w"
  by (simp add: clear_effect_def)

lemma step_counters_kept:
  "\<not> is_idless_transcript e \<Longrightarrow>
   globalUserMessageId (step w e) = globalUserMessageId w \<and>
   globalAssistantMessageId (step w e) = globalAssistantMessageId w"
proof (cases e)
  case (AppMessage data now)
  assume "\<not> is_idless_transcript e"
  with AppMessage show ?thesis
    by (auto simp: step_AppMessage handleAppMessage_counters transcriptMessage_explicit)
qed (simp_all add: step_def clear_effect_counters on_joined_meeting_def on_left_meeting_def
      on_error_def disconnect_counters connect_counters toggleMute_def Let_def remount_def
      init_world_def split: option.splits)

lemma step_counters_mono:
  "globalUserMessageId w \<le> globalUserMessageId (step w e) \<and>
   globalAssistantMessageId w \<le> globalAssistantMessageId (step w e)"
proof (cases "is_idless_transcript e")
  case True
  then obtain data now where "e = AppMessage data now" by (cases e) auto
  then show ?thesis using transcriptMessage_counters_mono[of w data now]
    by (simp add: step_AppMessage handleAppMessage_counters)
next
  case False
  then show ?thesis by (simp add: step_counters_kept)
qed

lemma run_counters_mono:
  "globalUserMessageId w \<le> globalUserMessageId (run w es) \<and>
   globalAssistantMessageId w \<le> globalAssistantMessageId (run w es)"
proof (induction es arbitrary: w)
  case Nil
  then show ?case by (simp add: run_def)
next
  case (Cons e es)
  from step_counters_mono[of w e] Cons.IH[of "step w e"] show ?case
    by (simp add: run_Cons)
qed

lemma counter_of_run_mono: "counter_of r w \<le> counter_of r (run w es)"
  using run_counters_mono[of w es] by (simp add: counter_of_def)

lemma counter_of_step_idless:
  "is_idless_transcript (AppMessage data now) \<Longrightarrow>
   counter_of r (step w (AppMessage data now)) = counter_of r (fst (transcriptMessage w data now))"
  by (simp add: counter_of_def step_AppMessage handleAppMessage_counters)

lemma minted_id_form:
  assumes "\<not> not_nullish (field data ''messageId'')"
    and "snd (transcriptMessage w data now) = Inr m"
  shows "\<exists>rs. toString (field data ''role'') = Inr rs \<and>
     tm_id m = rs @ ''-'' @ digits (js_incr (counter_of (field data ''role'') w))"
  using assms by (auto simp: transcriptMessage_idless split: sum.splits)

lemma later_fragment_counter:
  assumes 1: "is_idless_transcript (AppMessage d1 n1)"
    and 2: "\<not> not_nullish (field d2 ''messageId'')"
    and r: "field d2 ''role'' = field d1 ''role''"
    and b: "counter_of (field d1 ''role'') (run (step w (AppMessage d1 n1)) es) < 2 ^ 53"
  shows "js_incr (counter_of (field d1 ''role'') w)
           < js_incr (counter_of (field d1 ''role'') (run (step w (AppMessage d1 n1)) es))"
proof -
  let ?r = "field d1 ''role''"
  let ?w2 = "run (step w (AppMessage d1 n1)) es"
  from 1 have i1: "\<not> not_nullish (field d1 ''messageId'')" by simp
  have "counter_of ?r (step w (AppMessage d1 n1)) = js_incr (counter_of ?r w)"
    using counter_of_step_idless[OF 1] mint_counter[OF i1] by simp
  with counter_of_run_mono[of ?r "step w (AppMessage d1 n1)" es]
  have "js_incr (counter_of ?r w) \<le> counter_of ?r ?w2" by simp
  with b show ?thesis by (simp add: js_incr_small)
qed

lemma later_fragment:
  assumes 1: "is_idless_transcript (AppMessage d1 n1)"
    and 2: "\<not> not_nullish (field d2 ''messageId'')"
    and r: "field d2 ''role'' = field d1 ''role''"
    and b: "counter_of (field d1 ''role'') (run (step w (AppMessage d1 n1)) es) < 2 ^ 53"
  shows "counter_of (field d1 ''role'') (fst (transcriptMessage w d1 n1))
           < counter_of (field d1 ''role'')
               (fst (transcriptMessage (run (step w (AppMessage d1 n1)) es) d2 n2)) \<and>
         (snd (transcriptMessage w d1 n1) = Inr m1 \<and>
          snd (transcriptMessage (run (step w (AppMessage d1 n1)) es) d2 n2) = Inr m2
            \<longrightarrow> tm_id m2 \<noteq> tm_id m1)"
proof (intro conjI impI)
  let ?r = "field d1 ''role''"
  let ?w2 = "run (step w (AppMessage d1 n1)) es"
  from 1 have i1: "\<not> not_nullish (field d1 ''messageId'')" by simp
  note lt = later_fragment_counter[OF 1 2 r b]
  show "counter_of ?r (fst (transcriptMessage w d1 n1))
           < counter_of ?r (fst (transcriptMessage ?w2 d2 n2))"
    using lt mint_counter[OF i1, of w n1] mint_counter[OF 2, of ?w2 n2] r by simp
  assume a: "snd (transcriptMessage w d1 n1) = Inr m1 \<and>
          snd (transcriptMessage ?w2 d2 n2) = Inr m2"
  from minted_id_form[OF i1, of w n1 m1] a obtain rs where
    rs: "toString ?r = Inr rs" and id1: "tm_id m1 = rs @ ''-'' @ digits (js_incr (counter_of ?r w))"
    by auto
  from minted_id_form[OF 2, of ?w2 n2 m2] a r rs
  have id2: "tm_id m2 = rs @ ''-'' @ digits (js_incr (counter_of ?r ?w2))" by auto
  from lt have "digits (js_incr (counter_of ?r ?w2)) \<noteq> digits (js_incr (counter_of ?r w))"
    using digits_inj by fastforce
  with id1 id2 show "tm_id m2 \<noteq> tm_id m1" by simp
qed

text \<open>
  Claim C4, amended. A transcript message without \<^verbatim>\<open>messageId\<close>, whose role the
  template literal can print, gets the id role-n, where n is the next value of the
  module-level counter of its role (one counter for user, one for assistant; below
  \<open>2^53\<close> the next value is the successor). When the role cannot be printed (an object
  with a key toString of its own) the counter is advanced all the same and no message
  is built. A user message leaves the assistant counter alone, and conversely. Of two
  messages without id and with the same role, whatever events lie between them, the
  later one gets a larger counter value and, when both are built, a different id. No
  event other than a transcript message without id changes a counter: disconnecting,
  connecting and remounting keep the values.
\<close>

theorem minted_ids_per_role:
  "(\<not> not_nullish (field data ''messageId'') \<and> toString (field data ''role'') = Inr rs \<and>
    counter_of (field data ''role'') w < 2 ^ 53 \<longrightarrow>
      snd (transcriptMessage w data now) =
        Inr (spec_entry (rs @ ''-'' @ digits (counter_of (field data ''role'') w + 1))
               (AppMessage data now)) \<and>
      counter_of (field data ''role'') (fst (transcriptMessage w data now)) =
        counter_of (field data ''role'') w + 1) \<and>
   (\<not> not_nullish (field data ''messageId'') \<and> toString (field data ''role'') = Inl err \<longrightarrow>
      snd (transcriptMessage w data now) = Inl err \<and>
      counter_of (field data ''role'') (fst (transcriptMessage w data now)) =
        js_incr (counter_of (field data ''role'') w)) \<and>
   (field data ''role'' = JStr ''user'' \<longrightarrow>
      globalAssistantMessageId (fst (transcriptMessage w data now)) = globalAssistantMessageId w) \<and>
   (field data ''role'' = JStr ''assistant'' \<longrightarrow>
      globalUserMessageId (fst (transcriptMessage w data now)) = globalUserMessageId w) \<and>
   (is_idless_transcript (AppMessage d1 n1) \<and> \<not> not_nullish (field d2 ''messageId'') \<and>
    field d2 ''role'' = field d1 ''role'' \<and>
    counter_of (field d1 ''role'') (run (step w (AppMessage d1 n1)) es) < 2 ^ 53 \<longrightarrow>
      counter_of (field d1 ''role'') (fst (transcriptMessage w d1 n1))
        < counter_of (field d1 ''role'')
            (fst (transcriptMessage (run (step w (AppMessage d1 n1)) es) d2 n2)) \<and>
      (snd (transcriptMessage w d1 n1) = Inr m1 \<and>
       snd (transcriptMessage (run (step w (AppMessage d1 n1)) es) d2 n2) = Inr m2
         \<longrightarrow> tm_id m2 \<noteq> tm_id m1)) \<and>
   (\<not> is_idless_transcript e \<longrightarrow>
      globalUserMessageId (step w e) = globalUserMessageId w \<and>
      globalAssistantMessageId (step w e) = globalAssistantMessageId w)"
  using transcriptMessage_idless[of data w now] mint_counter[of data w now]
    transcriptMessage_other_counter[of data w now]
    later_fragment[of d1 n1 d2 w es n2 m1 m2] step_counters_kept[of e w]
  by (simp add: js_incr_small)

theorem minted_ids_per_role_witness:
  "\<not> not_nullish (field (idlessData ''user'' ''one'') ''messageId'') \<and>
   toString (field (idlessData ''user'' ''one'') ''role'') = Inr ''user'' \<and>
   counter_of (field (idlessData ''user'' ''one'') ''role'') (run init_world connected_trace) < 2 ^ 53 \<and>
   snd (transcriptMessage (run init_world connected_trace) (idlessData ''user'' ''one'') 1)
     = Inr \<lparr>tm_id = ''user-1'', tm_role = JStr ''user'', tm_text = JStr ''one'',
            tm_timestamp = JNum 1, tm_final = JBool True\<rparr> \<and>
   toString (field unprintable_role_data ''role'') = Inl TypeError \<and>
   snd (transcriptMessage (run init_world connected_trace) unprintable_role_data 4)
     = Inl TypeError \<and>
   globalAssistantMessageId (fst (transcriptMessage (run init_world connected_trace)
       unprintable_role_data 4)) = 1 \<and>
   field (idlessData ''assistant'' ''three'') ''role'' = JStr ''assistant'' \<and>
   globalUserMessageId (fst (transcriptMessage (run init_world connected_trace)
       (idlessData ''assistant'' ''three'') 3)) = 0 \<and>
   is_idless_transcript (AppMessage (idlessData ''user'' ''one'') 1) \<and>
   snd (transcriptMessage
       (run (step (run init_world connected_trace) (AppMessage (idlessData ''user'' ''one'') 1))
          reconnect_events)
       (idlessData ''user'' ''two'') 2)
     = Inr \<lparr>tm_id = ''user-2'', tm_role = JStr ''user'', tm_text = JStr ''two'',
            tm_timestamp = JNum 2, tm_final = JBool True\<rparr> \<and>
   tm_id \<lparr>tm_id = ''user-2'', tm_role = JStr ''user'', tm_text = JStr ''two'',
            tm_timestamp = JNum 2, tm_final = JBool True\<rparr>
     \<noteq> tm_id \<lparr>tm_id = ''user-1'', tm_role = JStr ''user'', tm_text = JStr ''one'',
            tm_timestamp = JNum 1, tm_final = JBool True\<rparr> \<and>
   \<not> is_idless_transcript Remount \<and>
   globalUserMessageId (step (run init_world (connected_trace @ [AppMessage (idlessData ''user'' ''one'') 1])) Remount) = 1"
proof -
  let ?w = "run init_world connected_trace"
  let ?one = "idlessData ''user'' ''one''"
  let ?two = "idlessData ''user'' ''two''"
  let ?three = "idlessData ''assistant'' ''three''"
  let ?w1 = "run init_world (connected_trace @ [AppMessage ?one 1])"
  let ?w2 = "run (step ?w (AppMessage ?one 1)) reconnect_events"
  let ?m1 = "\<lparr>tm_id = ''user-1'', tm_role = JStr ''user'', tm_text = JStr ''one'',
            tm_timestamp = JNum 1, tm_final = JBool True\<rparr>"
  let ?m2 = "\<lparr>tm_id = ''user-2'', tm_role = JStr ''user'', tm_text = JStr ''two'',
            tm_timestamp = JNum 2, tm_final = JBool True\<rparr>"
  have a: "\<not> not_nullish (field ?one ''messageId'')" by (simp add: idlessData_def)
  have a2: "\<not> not_nullish (field ?two ''messageId'')" by (simp add: idlessData_def)
  have a3: "\<not> not_nullish (field unprintable_role_data ''messageId'')"
    by (simp add: unprintable_role_data_def)
  have r: "field ?one ''role'' = JStr ''user''" "field ?two ''role'' = JStr ''user''"
      "field ?three ''role'' = JStr ''assistant''"
    by (simp_all add: idlessData_def)
  have t: "toString (field ?one ''role'') = Inr ''user''" by (simp add: idlessData_def)
  have t3: "toString (field unprintable_role_data ''role'') = Inl TypeError"
    by (simp add: unprintable_role_data_def)
  have b: "counter_of (JStr ''user'') ?w = 0"
    by (simp add: counter_of_def world_eval connected_trace_def)
  have b3: "counter_of (field unprintable_role_data ''role'') ?w = 0"
      "counter_of (field unprintable_role_data ''role'') (fst (transcriptMessage ?w unprintable_role_data 4))
        = globalAssistantMessageId (fst (transcriptMessage ?w unprintable_role_data 4))"
    by (simp_all add: counter_of_def world_eval connected_trace_def unprintable_role_data_def)
  have c: "is_idless_transcript (AppMessage ?one 1)" by (simp add: idlessData_def)
  have d: "counter_of (JStr ''user'') ?w2 = 1"
    by (simp add: counter_of_def world_eval reconnect_events_def connected_trace_def
        idlessData_def)
  have e: "globalUserMessageId ?w = 0" by (simp add: world_eval connected_trace_def)
  have f: "globalUserMessageId ?w1 = 1"
    by (simp add: world_eval connected_trace_def idlessData_def)
  have i: "js_incr 0 = 1" by (simp add: js_incr_def)
  note T = minted_ids_per_role[where ?d1.0 = ?one and ?n1.0 = 1 and ?d2.0 = ?two and ?n2.0 = 2
      and es = reconnect_events and ?m1.0 = ?m1 and ?m2.0 = ?m2 and e = Remount
      and err = TypeError]
  note T1 = T[where data = ?one and rs = "''user''" and w = ?w and now = 1]
  note T2 = T[where data = ?three and rs = "''assistant''" and w = ?w and now = 3]
  note T3 = T[where data = ?one and rs = "''user''" and w = ?w1 and now = 1]
  note T4 = T[where data = unprintable_role_data and rs = "''x''" and w = ?w and now = 4]
  from T1 a t r b have 1: "snd (transcriptMessage ?w ?one 1) = Inr ?m1"
    by (simp add: idlessData_def digits.simps digit_char_def)
  from T[where data = ?two and rs = "''user''" and w = ?w2 and now = 2] a2 r d
  have 5: "snd (transcriptMessage ?w2 ?two 2) = Inr ?m2"
    by (simp add: idlessData_def digits.simps digit_char_def)
  from T2 r e have 2: "globalUserMessageId (fst (transcriptMessage ?w ?three 3)) = 0" by simp
  from T1 a2 c r d 1 5 have 3: "tm_id ?m2 \<noteq> tm_id ?m1" by simp
  from T3 f have 4: "globalUserMessageId (step ?w1 Remount) = 1" by simp
  from T4 a3 t3 b3 i have 6: "snd (transcriptMessage ?w unprintable_role_data 4) = Inl TypeError"
    and 7: "globalAssistantMessageId (fst (transcriptMessage ?w unprintable_role_data 4)) = 1"
    by simp_all
  have 8: "snd (transcriptMessage ?w ?one 1) = Inr ?m1"
    by (simp add: world_eval connected_trace_def idlessData_def)
  have 9: "snd (transcriptMessage ?w2 ?two 2) = Inr ?m2"
    by (simp add: world_eval connected_trace_def reconnect_events_def idlessData_def)
  from a t r b c 1 2 3 4 5 6 7 8 9 t3 show ?thesis by simp
qed

section \<open>The stores and the connection state\<close>

text \<open>
  Claim C9, as stated, fails: \<^verbatim>\<open>handleAppMessage\<close> stores transcript and log
  messages in every connection state, and the clearing effect runs only when
  \<^verbatim>\<open>isConnected\<close> changes. Messages that arrive while the join is under way are
  stored while the state is connecting.
\<close>

theorem stray_message_counterexample:
  "connectionStatus (run init_world stray_trace) = Connecting \<and>
   map tm_id (messages (run init_world stray_trace)) = [''assistant-1''] \<and>
   map lm_text (logs (run init_world stray_trace)) = [JStr ''started'']"
  by (simp add: world_eval stray_trace_def connecting_trace_def idlessData_def logData_def)

lemma clear_effect_connectionStatus:
  "connectionStatus (clear_effect b w) = connectionStatus w"
  by (simp add: clear_effect_def)

lemma handler_keeps_stores:
  "\<not> is_store_message e \<Longrightarrow>
   (messages (handler w e) = messages w \<or> messages (handler w e) = []) \<and>
   (logs (handler w e) = logs w \<or> logs (handler w e) = [])"
proof (cases e)
  case (AppMessage data now)
  assume "\<not> is_store_message e"
  with AppMessage show ?thesis by (simp add: handleAppMessage_messages handleAppMessage_logs)
next
  case Remount
  then show ?thesis by (simp add: remount_def init_world_def)
qed (simp_all add: on_joined_meeting_def on_left_meeting_def on_error_def disconnect_messages
      disconnect_logs connect_messages connect_logs toggleMute_def Let_def split: option.splits)

lemma step_stores_empty:
  assumes inv: "isConnected w \<or> (messages w = [] \<and> logs w = [])"
    and ev: "is_store_message e \<Longrightarrow> isConnected w"
  shows "isConnected (step w e) \<or> (messages (step w e) = [] \<and> logs (step w e) = [])"
proof (cases "isConnected (handler w e)")
  case True
  then show ?thesis by (simp add: step_def isConnected_def clear_effect_connectionStatus)
next
  case False
  show ?thesis
  proof (cases "isConnected w")
    case True
    with False show ?thesis by (simp add: step_def clear_effect_def)
  next
    case nc: False
    with ev have "\<not> is_store_message e" by blast
    from handler_keeps_stores[OF this, of w] inv nc
    have "messages (handler w e) = [] \<and> logs (handler w e) = []" by auto
    then show ?thesis by (simp add: step_def clear_effect_def)
  qed
qed

lemma run_stores_empty:
  "isConnected w \<or> (messages w = [] \<and> logs w = []) \<Longrightarrow> stored_only_connected w es \<Longrightarrow>
   isConnected (run w es) \<or> (messages (run w es) = [] \<and> logs (run w es) = [])"
proof (induction es arbitrary: w)
  case Nil
  then show ?case by (simp add: run_def)
next
  case (Cons e es)
  from Cons.prems(2) have ev: "is_store_message e \<Longrightarrow> isConnected w"
    and rest: "stored_only_connected (step w e) es" by (auto split: if_splits)
  from step_stores_empty[OF Cons.prems(1) ev]
  have "isConnected (step w e) \<or> (messages (step w e) = [] \<and> logs (step w e) = [])" .
  from Cons.IH[OF this rest] show ?case by (simp add: run_Cons)
qed

text \<open>
  Claim C9, amended. In every state reached from the initial one by events among which
  the transcript and log messages all arrive while connected, if the connection is not
  connected then the stored messages and the log buffer are both empty.
\<close>

theorem stores_empty_unless_connected:
  "stored_only_connected init_world es \<Longrightarrow> \<not> isConnected (run init_world es) \<Longrightarrow>
   messages (run init_world es) = [] \<and> logs (run init_world es) = []"
  using run_stores_empty[of init_world es] by (simp add: init_world_def)

theorem stores_empty_unless_connected_witness:
  "stored_only_connected init_world chat_then_leave \<and>
   map tm_id (messages (run init_world (butlast chat_then_leave))) = [''user-1'', ''assistant-7''] \<and>
   length (logs (run init_world (butlast chat_then_leave))) = 1 \<and>
   \<not> isConnected (run init_world chat_then_leave) \<and>
   messages (run init_world chat_then_leave) = [] \<and> logs (run init_world chat_then_leave) = []"
proof -
  have a: "stored_only_connected init_world chat_then_leave"
    by (simp add: world_eval chat_then_leave_def connected_trace_def idlessData_def
        logData_def transcriptData_def)
  have b: "\<not> isConnected (run init_world chat_then_leave)"
    by (simp add: world_eval chat_then_leave_def connected_trace_def idlessData_def
        logData_def transcriptData_def)
  have c: "map tm_id (messages (run init_world (butlast chat_then_leave))) = [''user-1'', ''assistant-7'']"
    by (simp add: world_eval chat_then_leave_def connected_trace_def idlessData_def
        logData_def transcriptData_def)
  have d: "length (logs (run init_world (butlast chat_then_leave))) = 1"
    by (simp add: world_eval chat_then_leave_def connected_trace_def idlessData_def
        logData_def transcriptData_def)
  from stores_empty_unless_connected[OF a b] a b c d show ?thesis by simp
qed

end
